theory Spec2Isabelle
  imports Complex_Main "HOL-Library.Sublist" "HOL-Library.Char_ord" "HOL-Library.List_Lexorder"
    "HOL-Library.Product_Lexorder"
begin

section \<open>Python strings\<close>

text \<open>
  A Python \<open>str\<close> is a sequence of code points. The development models it as a
  \<^typ>\<open>string\<close>, reading each \<^typ>\<open>char\<close> as the code point of the same number
  (U+0000 to U+00FF). \<open>len\<close> is \<^const>\<open>length\<close>, \<open>+\<close> is \<open>@\<close>.
\<close>

definition cp :: "char \<Rightarrow> nat" where
  "cp c = of_char c"

text \<open>\<open>str.lower()\<close>: on this range the letters A-Z and U+00C0-U+00DE except U+00D7
  move up by 32, every other code point is kept, and the length does not change.\<close>

definition lower_char :: "char \<Rightarrow> char" where
  "lower_char c =
     (if (65 \<le> cp c \<and> cp c \<le> 90) \<or> (192 \<le> cp c \<and> cp c \<le> 222 \<and> cp c \<noteq> 215)
      then char_of (cp c + 32) else c)"

definition lower :: "string \<Rightarrow> string" where
  "lower s = map lower_char s"

text \<open>\<open>str.isspace()\<close> of one code point, which is also what \<open>\s\<close> matches in a
  \<open>str\<close> pattern and what \<open>str.strip()\<close> removes.\<close>

definition is_space :: "char \<Rightarrow> bool" where
  "is_space c = (cp c \<in> {9, 10, 11, 12, 13, 28, 29, 30, 31, 32, 133, 160})"

text \<open>The line boundaries of \<open>str.splitlines()\<close>.\<close>

definition is_linebreak :: "char \<Rightarrow> bool" where
  "is_linebreak c = (cp c \<in> {10, 11, 12, 13, 28, 29, 30, 133})"

definition CR :: char where
  "CR = CHR 0x0D"

definition LF :: char where
  "LF = CHR 0x0A"

text \<open>\<open>needle in hay\<close> for two strings.\<close>

fun py_in :: "string \<Rightarrow> string \<Rightarrow> bool" where
  "py_in needle [] = (needle = [])"
| "py_in needle (c # cs) = (prefix needle (c # cs) \<or> py_in needle cs)"

text \<open>
  \<open>str.splitlines()\<close>: the text is cut after every line boundary, \<open>\r\n\<close> counts as
  one boundary, the boundaries are dropped, and a text that ends with a boundary has no
  empty last line. The first argument is the line read so far.
\<close>

fun splitlines_from :: "string \<Rightarrow> string \<Rightarrow> string list" where
  "splitlines_from cur [] = (if cur = [] then [] else [cur])"
| "splitlines_from cur [c] = (if is_linebreak c then [cur] else [cur @ [c]])"
| "splitlines_from cur (c # d # ds) =
     (if c = CR \<and> d = LF then cur # splitlines_from [] ds
      else if is_linebreak c then cur # splitlines_from [] (d # ds)
      else splitlines_from (cur @ [c]) (d # ds))"

definition splitlines :: "string \<Rightarrow> string list" where
  "splitlines s = splitlines_from [] s"

text \<open>\<open>str.strip()\<close> with no argument.\<close>

definition strip :: "string \<Rightarrow> string" where
  "strip s = rev (dropWhile is_space (rev (dropWhile is_space s)))"

text \<open>\<open>str(n)\<close> of a natural number, as an f-string prints it.\<close>

definition digit_char :: "nat \<Rightarrow> char" where
  "digit_char d = char_of (48 + d)"

function str_nat :: "nat \<Rightarrow> string" where
  "str_nat n = (if n < 10 then [digit_char n] else str_nat (n div 10) @ [digit_char (n mod 10)])"
  by pat_completeness auto
termination
  by (relation "measure id") auto

declare str_nat.simps [simp del]





section \<open>Issue Detector: \<open>CodeAnalyzerMCP._detect_python_issues\<close>\<close>

record issue =
  i_type :: string
  i_severity :: string
  i_line :: nat
  i_message :: string
  i_suggestion :: string

text \<open>
  \<open>re.search(r'password\s*=\s*["\']', line, re.IGNORECASE)\<close>. The pattern has no
  alternative and no overlap between \<open>\s\<close> and the character that follows it, so a match
  at a position is decided by reading forwards: the eight letters in either case, white
  space, \<open>=\<close>, white space, one of the two quotes. \<open>re.search\<close> tries every position.
\<close>

definition quote_char :: "char \<Rightarrow> bool" where
  "quote_char c = (c = CHR 0x22 \<or> c = CHR 0x27)"

definition password_match_at :: "string \<Rightarrow> bool" where
  "password_match_at s =
     (lower (take 8 s) = ''password'' \<and>
      (case dropWhile is_space (drop 8 s) of
         [] \<Rightarrow> False
       | e # r \<Rightarrow> e = CHR ''='' \<and>
           (case dropWhile is_space r of [] \<Rightarrow> False | q # _ \<Rightarrow> quote_char q)))"

definition password_search :: "string \<Rightarrow> bool" where
  "password_search line = list_ex password_match_at (suffixes line)"

text \<open>The body of the loop: the five rules, in the order of the source, for one line.\<close>

definition check_line :: "nat \<Rightarrow> string \<Rightarrow> issue list" where
  "check_line line_num line =
     (if py_in ''eval('' line then
        [\<lparr>i_type = ''security'', i_severity = ''high'', i_line = line_num,
          i_message = ''Use of eval() is dangerous'',
          i_suggestion = ''Consider using ast.literal_eval() or safer alternatives''\<rparr>]
      else []) @
     (if py_in ''exec('' line then
        [\<lparr>i_type = ''security'', i_severity = ''high'', i_line = line_num,
          i_message = ''Use of exec() is dangerous'',
          i_suggestion = ''Avoid dynamic code execution''\<rparr>]
      else []) @
     (if password_search line then
        [\<lparr>i_type = ''security'', i_severity = ''critical'', i_line = line_num,
          i_message = ''Hardcoded password detected'',
          i_suggestion = ''Use environment variables or secure secret management''\<rparr>]
      else []) @
     (if py_in ''TODO'' line \<or> py_in ''FIXME'' line then
        [\<lparr>i_type = ''maintenance'', i_severity = ''low'', i_line = line_num,
          i_message = ''TODO/FIXME comment found'',
          i_suggestion = ''Address this comment or create a ticket''\<rparr>]
      else []) @
     (if length line > 120 then
        [\<lparr>i_type = ''style'', i_severity = ''low'', i_line = line_num,
          i_message = ''Line too long ('' @ str_nat (length line) @ '' characters)'',
          i_suggestion = ''Break into multiple lines (PEP 8 recommends max 79-120)''\<rparr>]
      else [])"

text \<open>\<open>for line_num, line in enumerate(lines, 1)\<close>, from a given first number.\<close>

fun detect_lines :: "nat \<Rightarrow> string list \<Rightarrow> issue list" where
  "detect_lines line_num [] = []"
| "detect_lines line_num (line # rest) = check_line line_num line @ detect_lines (Suc line_num) rest"

definition detect_python_issues :: "string \<Rightarrow> issue list" where
  "detect_python_issues content = detect_lines 1 (splitlines content)"

section \<open>Paths: \<open>pathlib.Path\<close> on a POSIX system\<close>

text \<open>
  A path object is its root (empty for a relative path, \<open>/\<close>, or \<open>//\<close> when the text
  starts with exactly two slashes) and its components. Building one from a text drops
  empty components and \<open>.\<close>; \<open>..\<close> is kept, pathlib never resolves it.
\<close>

datatype path = Path (root: string) (parts: "string list")

fun split_sep_from :: "string \<Rightarrow> string \<Rightarrow> string list" where
  "split_sep_from cur [] = [cur]"
| "split_sep_from cur (c # cs) =
     (if c = CHR ''/'' then cur # split_sep_from [] cs else split_sep_from (cur @ [c]) cs)"

definition parse_root :: "string \<Rightarrow> string" where
  "parse_root s =
     (let n = length (takeWhile (\<lambda>c. c = CHR ''/'') s)
      in if n = 0 then [] else if n = 2 then ''//'' else ''/'')"

definition parse_path :: "string \<Rightarrow> path" where
  "parse_path s =
     Path (parse_root s) (filter (\<lambda>p. p \<noteq> [] \<and> p \<noteq> ''.'') (split_sep_from [] s))"

text \<open>\<open>p / s\<close>: an absolute right operand replaces the left one.\<close>

definition joinpath :: "path \<Rightarrow> string \<Rightarrow> path" where
  "joinpath p s =
     (let q = parse_path s
      in if root q \<noteq> [] then q else Path (root p) (parts p @ parts q))"

text \<open>\<open>p.is_relative_to(other)\<close> compares the components as they are written.\<close>

definition is_relative_to :: "path \<Rightarrow> path \<Rightarrow> bool" where
  "is_relative_to p other = (root p = root other \<and> prefix (parts other) (parts p))"

fun join_sep :: "string list \<Rightarrow> string" where
  "join_sep [] = []"
| "join_sep [p] = p"
| "join_sep (p # q # ps) = p @ ''/'' @ join_sep (q # ps)"

text \<open>\<open>str(p)\<close>.\<close>

definition path_str :: "path \<Rightarrow> string" where
  "path_str p = (if root p = [] \<and> parts p = [] then ''.'' else root p @ join_sep (parts p))"

text \<open>\<open>PurePath.suffix\<close> of a file name: from its last dot, unless that dot is the first
  or the last character.\<close>

definition name_suffix :: "string \<Rightarrow> string" where
  "name_suffix name =
     (let ext = rev (takeWhile (\<lambda>c. c \<noteq> CHR ''.'') (rev name))
      in if CHR ''.'' \<in> set name \<and> ext \<noteq> [] \<and> length ext + 1 < length name
         then CHR ''.'' # ext else [])"

section \<open>The file system\<close>

text \<open>
  A file is its size in bytes and what opening it in text mode as UTF-8 and reading it
  gives: the text; a \<open>UnicodeDecodeError\<close>; or, for a file with the given text that the
  process may not open, another exception with its message. A directory is the list of
  its entries in the order the system lists them. There are no symbolic links. The
  working directory is given by its absolute components.

  The tree holds what the process can reach. For a path that leads to no node of the
  tree, \<open>os.stat\<close> fails: with a missing entry (\<open>ENOENT\<close>, \<open>ENOTDIR\<close>), or with another
  error, such as a name that is too long or a directory that may not be searched.
  \<open>fs_stat_error\<close> gives the exception of the second kind, if there is one.
\<close>

datatype exn =
    IsADirectoryError path
  | NotADirectoryError path
  | FileNotFoundError path
  | PermissionError path
  | OSError string
  | KeyError string

datatype file_data = Text string | Undecodable | Unreadable string string

datatype fsnode = File nat file_data | Dir "(string \<times> fsnode) list"

record filesystem =
  fs_root :: fsnode
  fs_cwd :: "string list"
  fs_stat_error :: "path \<Rightarrow> exn option"

text \<open>
  Path resolution by the system: the node reached so far, its ancestors (nearest first)
  and the components still to walk. \<open>..\<close> goes to the parent, and stays at the top
  directory; a component below a file, or a missing name, fails.
\<close>

fun walk_path :: "fsnode \<Rightarrow> fsnode list \<Rightarrow> string list \<Rightarrow> fsnode option" where
  "walk_path cur anc [] = Some cur"
| "walk_path (File sz d) anc (c # cs) = None"
| "walk_path (Dir es) anc (c # cs) =
     (if c = ''..'' then
        (case anc of [] \<Rightarrow> walk_path (Dir es) [] cs | p # ps \<Rightarrow> walk_path p ps cs)
      else
        (case map_of es c of None \<Rightarrow> None | Some n \<Rightarrow> walk_path n (Dir es # anc) cs))"

definition resolve :: "filesystem \<Rightarrow> path \<Rightarrow> fsnode option" where
  "resolve fs p =
     walk_path (fs_root fs) [] (if root p = [] then fs_cwd fs @ parts p else parts p)"

text \<open>
  \<open>Path.exists()\<close>: \<open>True\<close> when \<open>os.stat\<close> succeeds, \<open>False\<close> when it fails with a
  missing entry, and every other \<open>OSError\<close> is raised again.
\<close>

definition path_exists :: "filesystem \<Rightarrow> path \<Rightarrow> exn + bool" where
  "path_exists fs p =
     (case resolve fs p of
        Some n \<Rightarrow> Inr True
      | None \<Rightarrow> (case fs_stat_error fs p of None \<Rightarrow> Inr False | Some e \<Rightarrow> Inl e))"

text \<open>\<open>open(p, 'r', encoding='utf-8')\<close> followed by \<open>read()\<close>.\<close>

datatype read_outcome = ReadOk string | UnicodeDecodeError | Raised exn

definition open_read :: "filesystem \<Rightarrow> path \<Rightarrow> read_outcome" where
  "open_read fs p =
     (case resolve fs p of
        None \<Rightarrow> Raised (FileNotFoundError p)
      | Some (Dir es) \<Rightarrow> Raised (IsADirectoryError p)
      | Some (File sz (Text s)) \<Rightarrow> ReadOk s
      | Some (File sz Undecodable) \<Rightarrow> UnicodeDecodeError
      | Some (File sz (Unreadable s msg)) \<Rightarrow> Raised (OSError msg))"

section \<open>File Corpus Accessor: \<open>FileSystemMCP\<close>\<close>

text \<open>
  The result of \<open>read_file\<close> is a dictionary with either the key \<open>content\<close> or the key
  \<open>error\<close>. The four error returns of the source are the four constructors:
  \<open>'File not found: {file_path}'\<close>, \<open>'Access denied: Path outside repository'\<close>,
  \<open>'Binary file or encoding issue'\<close> and \<open>str(e)\<close>. The two tests stand before the
  \<open>try\<close> block, so an exception of \<open>exists\<close> leaves \<open>read_file\<close> (\<open>Inl\<close>).
\<close>

datatype read_error =
    FileNotFound string
  | AccessDenied
  | BinaryOrEncoding
  | OtherError exn

datatype read_result =
    FileContent (rr_path: string) (rr_content: string) (rr_lines: nat) (rr_size: nat)
  | Error read_error

definition read_file :: "filesystem \<Rightarrow> path \<Rightarrow> string \<Rightarrow> exn + read_result" where
  "read_file fs repo_path file_path =
     (let full_path = joinpath repo_path file_path
      in case path_exists fs full_path of
           Inl e \<Rightarrow> Inl e
         | Inr found \<Rightarrow>
             if \<not> found then Inr (Error (FileNotFound file_path))
             else if \<not> is_relative_to full_path repo_path then Inr (Error AccessDenied)
             else Inr (case open_read fs full_path of
                         ReadOk content \<Rightarrow>
                           FileContent file_path content (length (splitlines content))
                             (length content)
                       | UnicodeDecodeError \<Rightarrow> Error BinaryOrEncoding
                       | Raised e \<Rightarrow> Error (OtherError e)))"

record descriptor =
  d_path :: string
  d_size :: nat
  d_extension :: string
  d_name :: string

definition allowed_extensions :: "string list" where
  "allowed_extensions =
     [''.py'', ''.js'', ''.ts'', ''.jsx'', ''.tsx'', ''.java'', ''.cpp'', ''.c'', ''.h'',
      ''.go'', ''.rs'', ''.php'', ''.rb'', ''.cs'', ''.swift'', ''.kt'', ''.scala'',
      ''.md'', ''.txt'', ''.json'', ''.yaml'', ''.yml'', ''.toml'', ''.xml'', ''.html'', ''.css'']"

text \<open>The directories \<open>list_files\<close> keeps in \<open>dirs\<close>, and so walks into.\<close>

definition keep_dir :: "string \<Rightarrow> bool" where
  "keep_dir d =
     (\<not> prefix ''.'' d \<and>
      d \<notin> set [''node_modules'', ''venv'', ''__pycache__'', ''dist'', ''build''])"

text \<open>
  The body of the inner loop for one file name of the directory \<open>rel\<close> (its components
  below the repository root): the descriptor, when the name matches the pattern and the
  suffix is allowed. \<open>fnmatch.fnmatch\<close> is the parameter \<open>fnmatch\<close>. The path of the
  descriptor is \<open>str\<close> of the file's path relative to the root.
\<close>

definition file_entry :: "(string \<Rightarrow> string \<Rightarrow> bool) \<Rightarrow> string \<Rightarrow> string list \<Rightarrow> string \<Rightarrow> nat \<Rightarrow> descriptor list" where
  "file_entry fnmatch pattern rel filename sz =
     (if fnmatch filename pattern \<and> name_suffix filename \<in> set allowed_extensions
      then [\<lparr>d_path = path_str (Path [] (rel @ [filename])), d_size = sz,
             d_extension = name_suffix filename, d_name = filename\<rparr>]
      else [])"

text \<open>
  \<open>os.walk\<close> from a directory, top down: the files of the directory in listing order,
  then each kept subdirectory in listing order.
\<close>

fun walk_files :: "(string \<Rightarrow> string \<Rightarrow> bool) \<Rightarrow> string \<Rightarrow> string list \<Rightarrow> fsnode \<Rightarrow> descriptor list" where
  "walk_files fnmatch pattern rel (File sz d) = []"
| "walk_files fnmatch pattern rel (Dir es) =
     concat (map (\<lambda>(name, n). case n of
                     File sz d \<Rightarrow> file_entry fnmatch pattern rel name sz
                   | Dir sub \<Rightarrow> []) es) @
     concat (map (\<lambda>(name, n). case n of
                     File sz d \<Rightarrow> []
                   | Dir sub \<Rightarrow>
                       if keep_dir name then walk_files fnmatch pattern (rel @ [name]) n else []) es)"

declare walk_files.simps [simp del]

definition list_files :: "filesystem \<Rightarrow> path \<Rightarrow> (string \<Rightarrow> string \<Rightarrow> bool) \<Rightarrow> string \<Rightarrow> descriptor list" where
  "list_files fs repo_path fnmatch pattern =
     (case resolve fs repo_path of
        Some (Dir es) \<Rightarrow> walk_files fnmatch pattern [] (Dir es)
      | _ \<Rightarrow> [])"

record search_match =
  m_file :: string
  m_line :: nat
  m_content :: string
  m_context :: "string list"

text \<open>\<open>_get_context(lines, line_num, context_size=2)\<close>: \<open>lines[start:end]\<close>.\<close>

definition get_context :: "string list \<Rightarrow> nat \<Rightarrow> string list" where
  "get_context lines line_num =
     (let start = line_num - 2 - 1;
          end = min (length lines) (line_num + 2)
      in take (end - start) (drop start lines))"

text \<open>The loop over the numbered lines of one file; \<open>lines\<close> is the whole file.\<close>

fun search_lines :: "string \<Rightarrow> string \<Rightarrow> string list \<Rightarrow> nat \<Rightarrow> string list \<Rightarrow> search_match list" where
  "search_lines query file lines line_num [] = []"
| "search_lines query file lines line_num (line # rest) =
     (if py_in (lower query) (lower line)
      then [\<lparr>m_file = file, m_line = line_num, m_content = strip line,
              m_context = get_context lines line_num\<rparr>]
      else []) @
     search_lines query file lines (Suc line_num) rest"

text \<open>The loop over the listed files; an exception of \<open>read_file\<close> ends it.\<close>

fun search_files :: "filesystem \<Rightarrow> path \<Rightarrow> string \<Rightarrow> descriptor list \<Rightarrow> exn + search_match list" where
  "search_files fs repo_path query [] = Inr []"
| "search_files fs repo_path query (file_info # rest) =
     (case read_file fs repo_path (d_path file_info) of
        Inl e \<Rightarrow> Inl e
      | Inr file_data \<Rightarrow>
          (case search_files fs repo_path query rest of
             Inl e \<Rightarrow> Inl e
           | Inr later \<Rightarrow>
               Inr ((case file_data of
                       FileContent p content n sz \<Rightarrow>
                         search_lines query (d_path file_info) (splitlines content) 1
                           (splitlines content)
                     | Error e \<Rightarrow> []) @ later)))"

definition search_in_files :: "filesystem \<Rightarrow> path \<Rightarrow> (string \<Rightarrow> string \<Rightarrow> bool) \<Rightarrow> string \<Rightarrow> string \<Rightarrow> exn + search_match list" where
  "search_in_files fs repo_path fnmatch query file_pattern =
     search_files fs repo_path query (list_files fs repo_path fnmatch file_pattern)"

text \<open>
  \<open>get_file_structure\<close>: the tree of dictionaries, a directory with its children or a
  file with its extension. \<open>build_tree\<close> returns \<open>None\<close> at the depth limit. The items of
  a directory are sorted by the key \<open>(is_file, name)\<close>.
\<close>

datatype tree = TreeDirectory (tree_name: string) (tree_children: "tree list") | TreeFile string string

fun is_file :: "fsnode \<Rightarrow> bool" where
  "is_file (File sz d) = True"
| "is_file (Dir es) = False"

definition skip_item :: "string \<Rightarrow> bool" where
  "skip_item name = (prefix ''.'' name \<or> name \<in> set [''node_modules'', ''venv'', ''__pycache__''])"

function build_tree :: "nat \<Rightarrow> nat \<Rightarrow> string \<Rightarrow> (string \<times> fsnode) list \<Rightarrow> tree option" where
  "build_tree max_depth current_depth name entries =
     (if current_depth \<ge> max_depth then None
      else Some (TreeDirectory name
        (concat (map (\<lambda>(item_name, item).
            if skip_item item_name then []
            else (case item of
                    File sz d \<Rightarrow>
                      if name_suffix item_name \<in> set allowed_extensions
                      then [TreeFile item_name (name_suffix item_name)] else []
                  | Dir sub \<Rightarrow>
                      (case build_tree max_depth (Suc current_depth) item_name sub of
                         None \<Rightarrow> []
                       | Some subtree \<Rightarrow> if tree_children subtree \<noteq> [] then [subtree] else [])))
          (sort_key (\<lambda>(item_name, item). (is_file item, item_name)) entries)))))"
  by pat_completeness auto
termination
  by (relation "measure (\<lambda>(max_depth, current_depth, name, entries). max_depth - current_depth)") auto

declare build_tree.simps [simp del]

text \<open>\<open>Path.name\<close>: the last component, empty for a bare root.\<close>

definition path_name :: "path \<Rightarrow> string" where
  "path_name p = (if parts p = [] then [] else last (parts p))"

text \<open>\<open>iterdir\<close> on the root raises when the repository path is missing, is a file or is
  refused by the system; \<open>build_tree\<close> catches \<open>PermissionError\<close> only, and then returns
  the tree without children.\<close>

definition get_file_structure :: "filesystem \<Rightarrow> path \<Rightarrow> exn + tree option" where
  "get_file_structure fs repo_path =
     (case resolve fs repo_path of
        None \<Rightarrow>
          (case fs_stat_error fs repo_path of
             None \<Rightarrow> Inl (FileNotFoundError repo_path)
           | Some (PermissionError p) \<Rightarrow> Inr (Some (TreeDirectory (path_name repo_path) []))
           | Some e \<Rightarrow> Inl e)
      | Some (File sz d) \<Rightarrow> Inl (NotADirectoryError repo_path)
      | Some (Dir es) \<Rightarrow> Inr (build_tree 3 0 (path_name repo_path) es))"

section \<open>Remote code search: \<open>GitHubMCP.search_code\<close>\<close>

text \<open>
  What the request to the search API gives: status 200 with the items of the reply, or
  another status, or an exception anywhere in the \<open>try\<close> block, with its message.
\<close>

record gh_item =
  gi_name :: string
  gi_path :: string
  gi_url :: string

datatype http_outcome = Status200 "gh_item list" | StatusOther nat | HttpRaised string

datatype gh_result = GhResult gh_item | GhError string

text \<open>\<open>s.rstrip('/')\<close> and \<open>s.split('/')\<close>.\<close>

definition rstrip_slash :: "string \<Rightarrow> string" where
  "rstrip_slash s = rev (dropWhile (\<lambda>c. c = CHR ''/'') (rev s))"

text \<open>\<open>owner, repo = parts[-2], parts[-1]\<close> raises \<open>IndexError\<close> when there is one part.\<close>

definition owner_repo :: "string \<Rightarrow> (string \<times> string) option" where
  "owner_repo repo_url =
     (let parts = split_sep_from [] (rstrip_slash repo_url)
      in if length parts < 2 then None
         else Some (parts ! (length parts - 2), parts ! (length parts - 1)))"

definition search_url :: "string \<Rightarrow> string \<Rightarrow> string \<Rightarrow> string" where
  "search_url query owner repo =
     ''https://api.github.com/search/code?q='' @ query @ ''+repo:'' @ owner @ ''/'' @ repo"

definition search_code :: "(string \<Rightarrow> http_outcome) \<Rightarrow> string \<Rightarrow> string \<Rightarrow> gh_result list" where
  "search_code http_get query repo_url =
     (case owner_repo repo_url of
        None \<Rightarrow> [GhError ''list index out of range'']
      | Some (owner, repo) \<Rightarrow>
          (case http_get (search_url query owner repo) of
             Status200 items \<Rightarrow> map GhResult (take 10 items)
           | StatusOther code \<Rightarrow> [GhError (''Search failed: '' @ str_nat code)]
           | HttpRaised msg \<Rightarrow> [GhError msg]))"

section \<open>Structural Analyzer: \<open>CodeAnalyzerMCP\<close>\<close>

text \<open>
  The syntax tree as \<open>analyze_python_file\<close> reads it. A function definition has its
  name, line, number of positional parameters, number of decorators, docstring and child
  nodes; a class has its name, line and child nodes before the body, of the body and
  after it; an import has its aliases; an import-from has its module, if any, and its
  aliases. Every other node is its child nodes.
\<close>

datatype ast_node =
    FunctionDef string nat nat nat "string option" "ast_node list"
  | AsyncFunctionDef string nat nat nat "string option" "ast_node list"
  | ClassDef string nat "ast_node list" "ast_node list" "ast_node list"
  | Import "string list"
  | ImportFrom "string option" "string list"
  | OtherNode "ast_node list"

fun iter_child_nodes :: "ast_node \<Rightarrow> ast_node list" where
  "iter_child_nodes (FunctionDef name lineno nargs ndecorators doc children) = children"
| "iter_child_nodes (AsyncFunctionDef name lineno nargs ndecorators doc children) = children"
| "iter_child_nodes (ClassDef name lineno before body after) = before @ body @ after"
| "iter_child_nodes (Import names) = map (\<lambda>alias. OtherNode []) names"
| "iter_child_nodes (ImportFrom modname names) = map (\<lambda>alias. OtherNode []) names"
| "iter_child_nodes (OtherNode children) = children"

fun node_count :: "ast_node \<Rightarrow> nat" where
  "node_count (FunctionDef name lineno nargs ndecorators doc children) =
     Suc (sum_list (map node_count children))"
| "node_count (AsyncFunctionDef name lineno nargs ndecorators doc children) =
     Suc (sum_list (map node_count children))"
| "node_count (ClassDef name lineno before body after) =
     Suc (sum_list (map node_count before) + sum_list (map node_count body) +
          sum_list (map node_count after))"
| "node_count (Import names) = Suc (length names)"
| "node_count (ImportFrom modname names) = Suc (length names)"
| "node_count (OtherNode children) = Suc (sum_list (map node_count children))"

text \<open>\<open>ast.walk\<close>: a queue, the first node is taken and its children are put at the end.\<close>

function walk_queue :: "ast_node list \<Rightarrow> ast_node list" where
  "walk_queue [] = []"
| "walk_queue (node # todo) = node # walk_queue (todo @ iter_child_nodes node)"
  by pat_completeness auto
termination
proof (relation "measure (\<lambda>todo. sum_list (map node_count todo))")
  show "wf (measure (\<lambda>todo. sum_list (map node_count todo)))"
    by simp
next
  fix node :: ast_node and todo :: "ast_node list"
  have "node_count node = Suc (sum_list (map node_count (iter_child_nodes node)))"
    by (cases node) (simp_all add: comp_def sum_list_triv)
  then show "(todo @ iter_child_nodes node, node # todo) \<in> measure (\<lambda>todo. sum_list (map node_count todo))"
    by simp
qed

definition ast_walk :: "ast_node \<Rightarrow> ast_node list" where
  "ast_walk tree = walk_queue [tree]"

record function_entry =
  fe_name :: string
  fe_line :: nat
  fe_args :: nat
  fe_decorators :: nat
  fe_docstring :: "string option"

record class_entry =
  ce_name :: string
  ce_line :: nat
  ce_methods :: nat

record complexity_entry =
  cx_name :: string
  cx_complexity :: nat
  cx_line :: nat

record metrics =
  mt_complexity :: "complexity_entry list option"
  mt_maintainability_index :: "real option"

record file_analysis =
  fa_file :: string
  fa_language :: string
  fa_metrics :: metrics
  fa_functions :: "function_entry list"
  fa_classes :: "class_entry list"
  fa_imports :: "string list"
  fa_issues :: "issue list"

text \<open>
  The three dictionaries \<open>analyze_python_file\<close> returns: the analysis, the syntax error
  with the keys \<open>file\<close>, \<open>error\<close> and \<open>line\<close> (\<open>e.lineno\<close>, which may be \<open>None\<close>), and
  the other error with the keys \<open>file\<close> and \<open>error\<close>.
\<close>

datatype analysis_result =
    Analysis file_analysis
  | SyntaxErrorResult string string "nat option"
  | ErrorResult string string

text \<open>
  What \<open>ast.parse\<close> does on a content: a tree, a \<open>SyntaxError\<close> with \<open>str(e)\<close> and
  \<open>e.lineno\<close>, or another exception with \<open>str(e)\<close>. \<open>cc_visit\<close> and \<open>mi_visit\<close> of radon
  give a value or raise (\<open>None\<close>). The three are parameters.
\<close>

datatype parse_outcome =
    Parsed ast_node
  | RaisedSyntaxError string "nat option"
  | RaisedException string

record pylib =
  ast_parse :: "string \<Rightarrow> parse_outcome"
  cc_visit :: "string \<Rightarrow> complexity_entry list option"
  mi_visit :: "string \<Rightarrow> real option"

fun is_FunctionDef :: "ast_node \<Rightarrow> bool" where
  "is_FunctionDef (FunctionDef name lineno nargs ndecorators doc children) = True"
| "is_FunctionDef node = False"

text \<open>The body of the loop over the walked nodes.\<close>

fun visit_node :: "file_analysis \<Rightarrow> ast_node \<Rightarrow> file_analysis" where
  "visit_node analysis (FunctionDef name lineno nargs ndecorators doc children) =
     analysis\<lparr>fa_functions := fa_functions analysis @
       [\<lparr>fe_name = name, fe_line = lineno, fe_args = nargs, fe_decorators = ndecorators,
         fe_docstring = None\<rparr>]\<rparr>"
| "visit_node analysis (ClassDef name lineno before body after) =
     analysis\<lparr>fa_classes := fa_classes analysis @
       [\<lparr>ce_name = name, ce_line = lineno, ce_methods = length (filter is_FunctionDef body)\<rparr>]\<rparr>"
| "visit_node analysis (Import names) =
     analysis\<lparr>fa_imports := fa_imports analysis @ names\<rparr>"
| "visit_node analysis (ImportFrom modname names) =
     analysis\<lparr>fa_imports := fa_imports analysis @ [case modname of None \<Rightarrow> [] | Some m \<Rightarrow> m]\<rparr>"
| "visit_node analysis node = analysis"

definition analyze_python_file :: "pylib \<Rightarrow> string \<Rightarrow> string \<Rightarrow> analysis_result" where
  "analyze_python_file lib content file_path =
     (case ast_parse lib content of
        Parsed tree \<Rightarrow>
          (let analysis = \<lparr>fa_file = file_path, fa_language = ''python'',
                 fa_metrics = \<lparr>mt_complexity = None, mt_maintainability_index = None\<rparr>,
                 fa_functions = [], fa_classes = [], fa_imports = [], fa_issues = []\<rparr>;
               analysis = foldl visit_node analysis (ast_walk tree);
               analysis = analysis\<lparr>fa_metrics := (fa_metrics analysis)
                 \<lparr>mt_complexity := cc_visit lib content\<rparr>\<rparr>;
               analysis = analysis\<lparr>fa_metrics := (fa_metrics analysis)
                 \<lparr>mt_maintainability_index := mi_visit lib content\<rparr>\<rparr>;
               analysis = analysis\<lparr>fa_issues := detect_python_issues content\<rparr>
           in Analysis analysis)
      | RaisedSyntaxError msg lineno \<Rightarrow>
          SyntaxErrorResult file_path (''Syntax error: '' @ msg) lineno
      | RaisedException msg \<Rightarrow> ErrorResult file_path msg)"

text \<open>
  The suggestions are f-strings; each is kept as its kind and the values it prints: the
  number of functions above complexity 10 and the names of the first three, the
  maintainability index, the number of functions without docstring.
\<close>

datatype suggestion =
    HighComplexity nat "string list"
  | LowMaintainability real
  | LackDocstrings nat

text \<open>\<open>analysis.get('metrics', {})\<close> and \<open>analysis.get('functions', [])\<close>.\<close>

fun get_metrics :: "analysis_result \<Rightarrow> metrics" where
  "get_metrics (Analysis a) = fa_metrics a"
| "get_metrics r = \<lparr>mt_complexity = None, mt_maintainability_index = None\<rparr>"

fun get_functions :: "analysis_result \<Rightarrow> function_entry list" where
  "get_functions (Analysis a) = fa_functions a"
| "get_functions r = []"

text \<open>\<open>not f.get('docstring')\<close>: the key is missing, or its value is \<open>None\<close> or empty.\<close>

definition without_docstring :: "function_entry \<Rightarrow> bool" where
  "without_docstring f = (case fe_docstring f of None \<Rightarrow> True | Some d \<Rightarrow> d = [])"

definition suggest_improvements :: "analysis_result \<Rightarrow> suggestion list" where
  "suggest_improvements analysis =
     (case mt_complexity (get_metrics analysis) of
        None \<Rightarrow> []
      | Some items \<Rightarrow>
          (let high_complexity = filter (\<lambda>item. cx_complexity item > 10) items
           in if high_complexity \<noteq> []
              then [HighComplexity (length high_complexity) (map cx_name (take 3 high_complexity))]
              else [])) @
     (case mt_maintainability_index (get_metrics analysis) of
        None \<Rightarrow> []
      | Some mi \<Rightarrow> if mi < 20 then [LowMaintainability mi] else []) @
     (let functions_without_docs = filter without_docstring (get_functions analysis)
      in if length functions_without_docs > 3
         then [LackDocstrings (length functions_without_docs)]
         else [])"

text \<open>
  A call of \<open>analyze_python_file\<close> makes up to three calls of the library. Whether such
  a call gives the same answer each time is not for this code to decide, so a run is
  described with the answers a call may give: \<open>parse_run runs content outcome\<close> says that
  \<open>ast.parse(content)\<close> may end with \<open>outcome\<close>, and so on. A run of \<open>analyze_python_file\<close>
  is the function above on the answers its calls got; after a failed parse the other two
  calls are not made.
\<close>

record pyruns =
  parse_run :: "string \<Rightarrow> parse_outcome \<Rightarrow> bool"
  cc_run :: "string \<Rightarrow> complexity_entry list option \<Rightarrow> bool"
  mi_run :: "string \<Rightarrow> real option \<Rightarrow> bool"

definition answers :: "parse_outcome \<Rightarrow> complexity_entry list option \<Rightarrow> real option \<Rightarrow> pylib" where
  "answers outcome cc mi =
     \<lparr>ast_parse = (\<lambda>content. outcome), cc_visit = (\<lambda>content. cc), mi_visit = (\<lambda>content. mi)\<rparr>"

inductive analyze_run :: "pyruns \<Rightarrow> string \<Rightarrow> string \<Rightarrow> analysis_result \<Rightarrow> bool"
  for runs :: pyruns and content :: string and file_path :: string where
  parsed:
    "parse_run runs content (Parsed tree) \<Longrightarrow> cc_run runs content cc \<Longrightarrow>
     mi_run runs content mi \<Longrightarrow>
     analyze_run runs content file_path
       (analyze_python_file (answers (Parsed tree) cc mi) content file_path)"
| syntax_error:
    "parse_run runs content (RaisedSyntaxError msg lineno) \<Longrightarrow>
     analyze_run runs content file_path
       (analyze_python_file (answers (RaisedSyntaxError msg lineno) None None) content file_path)"
| exception:
    "parse_run runs content (RaisedException msg) \<Longrightarrow>
     analyze_run runs content file_path
       (analyze_python_file (answers (RaisedException msg) None None) content file_path)"

code_pred analyze_run .

text \<open>The runs of a library whose calls are functions of the content.\<close>

definition runs_of :: "pylib \<Rightarrow> pyruns" where
  "runs_of lib =
     \<lparr>parse_run = (\<lambda>content outcome. outcome = ast_parse lib content),
      cc_run = (\<lambda>content cc. cc = cc_visit lib content),
      mi_run = (\<lambda>content mi. mi = mi_visit lib content)\<rparr>"

section \<open>Retrieval Pipeline: \<open>CodeAssistantAgent\<close>\<close>

text \<open>
  The stages \<open>plan_search\<close>, \<open>execute_search\<close> and \<open>analyze_code\<close>. The first and the
  last stage of the graph, \<open>understand_query\<close> and \<open>generate_response\<close>, call the language
  model and only add a message; they are not modelled.
\<close>

record search_plan =
  sp_patterns :: "string list"
  sp_keywords :: "string list"
  sp_file_types :: "string list"

datatype found_match = LocalMatch search_match | RemoteMatch gh_result

text \<open>The dictionary \<open>results\<close> of \<open>execute_search\<close>; the keys \<open>structure\<close> and
  \<open>repo_info\<close> are set on some paths only. \<open>get_repo_info\<close> gives a dictionary, kept
  as its items.\<close>

type_synonym repo_info = "(string \<times> string) list"

record search_results =
  sr_files :: "descriptor list"
  sr_matches :: "found_match list"
  sr_structure :: "tree option option"
  sr_repo_info :: "repo_info option"

record code_analysis =
  ca_file_analyses :: "analysis_result list"
  ca_issues :: "issue list"
  ca_suggestions :: "suggestion list"

text \<open>The dictionary \<open>state['analysis_results']\<close>, by its three possible keys.\<close>

record analysis_results =
  ar_search_plan :: "search_plan option"
  ar_search_results :: "search_results option"
  ar_code_analysis :: "code_analysis option"

text \<open>
  The progress messages are f-strings behind a pictograph; each is kept as its kind and
  the values it prints: the joined patterns, the two counts, the number of issues.
\<close>

datatype message =
    PlanningToSearch string
  | FoundFilesAndMatches nat nat
  | AnalysisComplete nat

record agent_state =
  st_messages :: "message list"
  st_repo_path :: string
  st_github_url :: string
  st_current_step :: string
  st_analysis_results :: analysis_results
  st_user_query :: string

text \<open>The agent: \<open>fs_mcp\<close> is the local accessor with its root, or \<open>None\<close>.\<close>

record agent =
  ag_fs_mcp :: "path option"
  ag_github_url :: "string option"

text \<open>\<open>__init__\<close>: \<open>FileSystemMCP(repo_path) if repo_path else None\<close>.\<close>

definition new_agent :: "string option \<Rightarrow> string option \<Rightarrow> agent" where
  "new_agent repo_path github_url =
     \<lparr>ag_fs_mcp = (case repo_path of
                     None \<Rightarrow> None
                   | Some p \<Rightarrow> if p = [] then None else Some (parse_path p)),
      ag_github_url = github_url\<rparr>"

text \<open>What the stages read from outside the program.\<close>

record environment =
  env_fs :: filesystem
  env_fnmatch :: "string \<Rightarrow> string \<Rightarrow> bool"
  env_http_get :: "string \<Rightarrow> http_outcome"
  env_get_repo_info :: "string \<Rightarrow> repo_info"
  env_lib :: pylib

text \<open>\<open>', '.join(xs)\<close>.\<close>

fun join_comma :: "string list \<Rightarrow> string" where
  "join_comma [] = []"
| "join_comma [x] = x"
| "join_comma (x # y # ys) = x @ '', '' @ join_comma (y # ys)"

text \<open>The chain of \<open>if\<close> and \<open>elif\<close> of \<open>plan_search\<close>, in the order of the source.\<close>

definition make_search_plan :: "string \<Rightarrow> search_plan" where
  "make_search_plan user_query =
     (if py_in ''authentication'' (lower user_query) \<or> py_in ''auth'' (lower user_query) then
        \<lparr>sp_patterns = [''*auth*.py'', ''*login*.py''],
         sp_keywords = [''auth'', ''login'', ''password'', ''token''],
         sp_file_types = []\<rparr>
      else if py_in ''database'' (lower user_query) \<or> py_in ''sql'' (lower user_query) then
        \<lparr>sp_patterns = [''*db*.py'', ''*model*.py''],
         sp_keywords = [''db'', ''database'', ''query'', ''sql''],
         sp_file_types = []\<rparr>
      else if py_in ''api'' (lower user_query) \<or> py_in ''endpoint'' (lower user_query) then
        \<lparr>sp_patterns = [''*api*.py'', ''*route*.py'', ''*views*.py''],
         sp_keywords = [''api'', ''route'', ''endpoint'', ''@app''],
         sp_file_types = []\<rparr>
      else if py_in ''bug'' (lower user_query) \<or> py_in ''error'' (lower user_query) then
        \<lparr>sp_patterns = [],
         sp_keywords = [''error'', ''exception'', ''try'', ''except''],
         sp_file_types = [''.py'', ''.js'']\<rparr>
      else
        \<lparr>sp_patterns = [''*.py'', ''*.js''], sp_keywords = [], sp_file_types = []\<rparr>)"

definition plan_search :: "agent_state \<Rightarrow> agent_state" where
  "plan_search state =
     (let search_plan = make_search_plan (st_user_query state)
      in state\<lparr>st_analysis_results :=
                 \<lparr>ar_search_plan = Some search_plan, ar_search_results = None,
                  ar_code_analysis = None\<rparr>,
               st_current_step := ''Planning search'',
               st_messages := st_messages state @
                 [PlanningToSearch (join_comma (take 3 (sp_patterns search_plan)))]\<rparr>)"

text \<open>The three loops of \<open>execute_search\<close>, over the patterns and keywords they are given.\<close>

fun extend_files :: "environment \<Rightarrow> path \<Rightarrow> string list \<Rightarrow> descriptor list" where
  "extend_files env repo_path [] = []"
| "extend_files env repo_path (pattern # rest) =
     take 10 (list_files (env_fs env) repo_path (env_fnmatch env) pattern) @
     extend_files env repo_path rest"

fun extend_matches :: "environment \<Rightarrow> path \<Rightarrow> string list \<Rightarrow> exn + found_match list" where
  "extend_matches env repo_path [] = Inr []"
| "extend_matches env repo_path (keyword # rest) =
     (case search_in_files (env_fs env) repo_path (env_fnmatch env) keyword ''*.py'' of
        Inl e \<Rightarrow> Inl e
      | Inr matches \<Rightarrow>
          (case extend_matches env repo_path rest of
             Inl e \<Rightarrow> Inl e
           | Inr later \<Rightarrow> Inr (map LocalMatch (take 20 matches) @ later)))"

fun extend_remote_matches :: "environment \<Rightarrow> string \<Rightarrow> string list \<Rightarrow> found_match list" where
  "extend_remote_matches env github_url [] = []"
| "extend_remote_matches env github_url (keyword # rest) =
     map RemoteMatch (search_code (env_http_get env) keyword github_url) @
     extend_remote_matches env github_url rest"

text \<open>The dictionary \<open>results\<close> at the end of the branches; an exception of
  \<open>search_in_files\<close> or of \<open>get_file_structure\<close> leaves the stage.\<close>

definition search_with_plan :: "environment \<Rightarrow> agent \<Rightarrow> search_plan \<Rightarrow> exn + search_results" where
  "search_with_plan env self search_plan =
     (case ag_fs_mcp self of
        Some repo_path \<Rightarrow>
          (let files = extend_files env repo_path (take 5 (sp_patterns search_plan))
           in case extend_matches env repo_path (take 3 (sp_keywords search_plan)) of
                Inl e \<Rightarrow> Inl e
              | Inr matches \<Rightarrow>
                  if files = [] then
                    (case get_file_structure (env_fs env) repo_path of
                       Inl e \<Rightarrow> Inl e
                     | Inr structure \<Rightarrow>
                         Inr \<lparr>sr_files = files, sr_matches = matches,
                              sr_structure = Some structure, sr_repo_info = None\<rparr>)
                  else Inr \<lparr>sr_files = files, sr_matches = matches,
                            sr_structure = None, sr_repo_info = None\<rparr>)
      | None \<Rightarrow>
          (case ag_github_url self of
             None \<Rightarrow> Inr \<lparr>sr_files = [], sr_matches = [], sr_structure = None, sr_repo_info = None\<rparr>
           | Some github_url \<Rightarrow>
               if github_url = [] then
                 Inr \<lparr>sr_files = [], sr_matches = [], sr_structure = None, sr_repo_info = None\<rparr>
               else
                 Inr \<lparr>sr_files = [],
                      sr_matches = extend_remote_matches env github_url
                                     (take 3 (sp_keywords search_plan)),
                      sr_structure = None,
                      sr_repo_info = Some (env_get_repo_info env github_url)\<rparr>))"

definition execute_search :: "environment \<Rightarrow> agent \<Rightarrow> agent_state \<Rightarrow> exn + agent_state" where
  "execute_search env self state =
     (case ar_search_plan (st_analysis_results state) of
        None \<Rightarrow> Inl (KeyError ''search_plan'')
      | Some search_plan \<Rightarrow>
          (case search_with_plan env self search_plan of
             Inl e \<Rightarrow> Inl e
           | Inr results \<Rightarrow>
               Inr (state\<lparr>st_analysis_results :=
                            (st_analysis_results state)\<lparr>ar_search_results := Some results\<rparr>,
                          st_current_step := ''Executing search'',
                          st_messages := st_messages state @
                            [FoundFilesAndMatches (length (sr_files results))
                               (length (sr_matches results))]\<rparr>)))"

text \<open>The loop of \<open>analyze_code\<close> over the file descriptors it is given; an exception
  of \<open>read_file\<close> ends it.\<close>

fun analyze_files :: "environment \<Rightarrow> path \<Rightarrow> code_analysis \<Rightarrow> descriptor list \<Rightarrow> exn + code_analysis" where
  "analyze_files env repo_path analysis [] = Inr analysis"
| "analyze_files env repo_path analysis (file_info # rest) =
     (case read_file (env_fs env) repo_path (d_path file_info) of
        Inl e \<Rightarrow> Inl e
      | Inr (FileContent p content n sz) \<Rightarrow>
          if suffix ''.py'' (d_path file_info) then
            (let file_analysis = analyze_python_file (env_lib env) content (d_path file_info)
             in analyze_files env repo_path
                  \<lparr>ca_file_analyses = ca_file_analyses analysis @ [file_analysis],
                   ca_issues = ca_issues analysis @
                     (case file_analysis of Analysis a \<Rightarrow> fa_issues a | _ \<Rightarrow> []),
                   ca_suggestions = ca_suggestions analysis @ suggest_improvements file_analysis\<rparr>
                  rest)
          else analyze_files env repo_path analysis rest
      | Inr (Error e) \<Rightarrow> analyze_files env repo_path analysis rest)"

definition analyze_code :: "environment \<Rightarrow> agent \<Rightarrow> agent_state \<Rightarrow> exn + agent_state" where
  "analyze_code env self state =
     (case ar_search_results (st_analysis_results state) of
        None \<Rightarrow> Inl (KeyError ''search_results'')
      | Some search_results \<Rightarrow>
          (let empty = \<lparr>ca_file_analyses = [], ca_issues = [], ca_suggestions = []\<rparr>
           in case (case ag_fs_mcp self of
                      Some repo_path \<Rightarrow>
                        analyze_files env repo_path empty (take 5 (sr_files search_results))
                    | None \<Rightarrow> Inr empty) of
                Inl e \<Rightarrow> Inl e
              | Inr analysis \<Rightarrow>
                  Inr (state\<lparr>st_analysis_results :=
                               (st_analysis_results state)\<lparr>ar_code_analysis := Some analysis\<rparr>,
                             st_current_step := ''Analyzing code'',
                             st_messages := st_messages state @
                               [AnalysisComplete (length (ca_issues analysis))]\<rparr>)))"

section \<open>Notions used in the statements\<close>

text \<open>An issue of a second text, numbered after the \<open>k\<close> lines of a first one.\<close>

definition offset_issue :: "nat \<Rightarrow> issue \<Rightarrow> issue" where
  "offset_issue k x = x\<lparr>i_line := i_line x + k\<rparr>"

text \<open>
  Two texts join at a line boundary when one of them is empty, or the first ends with a
  line boundary that the second cannot extend: not a \<open>\r\<close> before a \<open>\n\<close>.
\<close>

definition joins_at_line_boundary :: "string \<Rightarrow> string \<Rightarrow> bool" where
  "joins_at_line_boundary A B =
     (A = [] \<or> B = [] \<or> (is_linebreak (last A) \<and> \<not> (last A = CR \<and> hd B = LF)))"


text \<open>
  A file system is well formed when the names in every directory are distinct and are
  names a directory can hold: not empty, without \<open>/\<close>, and neither \<open>.\<close> nor \<open>..\<close>.
\<close>

definition valid_name :: "string \<Rightarrow> bool" where
  "valid_name name = (name \<noteq> [] \<and> CHR ''/'' \<notin> set name \<and> name \<noteq> ''.'' \<and> name \<noteq> ''..'')"

fun wf_node :: "fsnode \<Rightarrow> bool" where
  "wf_node (File sz d) = True"
| "wf_node (Dir es) =
     (distinct (map fst es) \<and> list_all (\<lambda>(name, n). valid_name name \<and> wf_node n) es)"

text \<open>What \<open>read_file\<close> gives for a path when the file behind it has the given data.\<close>

fun read_back :: "string \<Rightarrow> file_data \<Rightarrow> read_result" where
  "read_back p (Text s) = FileContent p s (length (splitlines s)) (length s)"
| "read_back p Undecodable = Error BinaryOrEncoding"
| "read_back p (Unreadable s msg) = Error (OtherError (OSError msg))"

text \<open>The files \<open>list_files\<close> returns, each with the data of the file it stands for.\<close>

fun listed_data :: "(string \<Rightarrow> string \<Rightarrow> bool) \<Rightarrow> string \<Rightarrow> string list \<Rightarrow> fsnode \<Rightarrow> (descriptor \<times> file_data) list" where
  "listed_data fnmatch pattern rel (File sz d) = []"
| "listed_data fnmatch pattern rel (Dir es) =
     concat (map (\<lambda>(name, n). case n of
                     File sz d \<Rightarrow> map (\<lambda>desc. (desc, d)) (file_entry fnmatch pattern rel name sz)
                   | Dir sub \<Rightarrow> []) es) @
     concat (map (\<lambda>(name, n). case n of
                     File sz d \<Rightarrow> []
                   | Dir sub \<Rightarrow>
                       if keep_dir name then listed_data fnmatch pattern (rel @ [name]) n else []) es)"

declare listed_data.simps [simp del]

definition files_with_data :: "filesystem \<Rightarrow> path \<Rightarrow> (string \<Rightarrow> string \<Rightarrow> bool) \<Rightarrow> string \<Rightarrow> (descriptor \<times> file_data) list" where
  "files_with_data fs repo_path fnmatch pattern =
     (case resolve fs repo_path of
        Some (Dir es) \<Rightarrow> listed_data fnmatch pattern [] (Dir es)
      | _ \<Rightarrow> [])"

text \<open>The results \<open>search_with_plan\<close> keeps for each listed pattern and for each
  searched keyword, before they are joined; a search that raises has none.\<close>

definition kept_per_pattern :: "environment \<Rightarrow> agent \<Rightarrow> search_plan \<Rightarrow> descriptor list list" where
  "kept_per_pattern env self search_plan =
     (case ag_fs_mcp self of
        Some repo_path \<Rightarrow>
          map (\<lambda>pattern. take 10 (list_files (env_fs env) repo_path (env_fnmatch env) pattern))
            (take 5 (sp_patterns search_plan))
      | None \<Rightarrow> [])"

definition kept_per_keyword :: "environment \<Rightarrow> agent \<Rightarrow> search_plan \<Rightarrow> found_match list list" where
  "kept_per_keyword env self search_plan =
     (case ag_fs_mcp self of
        Some repo_path \<Rightarrow>
          map (\<lambda>keyword.
                 case search_in_files (env_fs env) repo_path (env_fnmatch env) keyword ''*.py'' of
                   Inl e \<Rightarrow> []
                 | Inr matches \<Rightarrow> map LocalMatch (take 20 matches))
            (take 3 (sp_keywords search_plan))
      | None \<Rightarrow>
          (case ag_github_url self of
             None \<Rightarrow> []
           | Some github_url \<Rightarrow>
               if github_url = [] then []
               else map (\<lambda>keyword. map RemoteMatch (search_code (env_http_get env) keyword github_url))
                      (take 3 (sp_keywords search_plan))))"


text \<open>What one walked node adds to the functions, to the classes and to the imports of
  an analysis.\<close>

fun function_entry_of :: "ast_node \<Rightarrow> function_entry list" where
  "function_entry_of (FunctionDef name lineno nargs ndecorators doc children) =
     [\<lparr>fe_name = name, fe_line = lineno, fe_args = nargs, fe_decorators = ndecorators,
       fe_docstring = None\<rparr>]"
| "function_entry_of node = []"

fun class_entry_of :: "ast_node \<Rightarrow> class_entry list" where
  "class_entry_of (ClassDef name lineno before body after) =
     [\<lparr>ce_name = name, ce_line = lineno, ce_methods = length (filter is_FunctionDef body)\<rparr>]"
| "class_entry_of node = []"

fun imports_of :: "ast_node \<Rightarrow> string list" where
  "imports_of (Import names) = names"
| "imports_of (ImportFrom modname names) = [case modname of None \<Rightarrow> [] | Some m \<Rightarrow> m]"
| "imports_of node = []"

text \<open>The parse failed; the line number a result carries, if any; the result is an
  analysis.\<close>

fun parse_failed :: "parse_outcome \<Rightarrow> bool" where
  "parse_failed (Parsed tree) = False"
| "parse_failed outcome = True"

fun line_number :: "analysis_result \<Rightarrow> nat option" where
  "line_number (SyntaxErrorResult file msg lineno) = lineno"
| "line_number r = None"

fun is_analysis :: "analysis_result \<Rightarrow> bool" where
  "is_analysis (Analysis a) = True"
| "is_analysis r = False"

section \<open>Examples\<close>

text \<open>A small file system: a repository at \<open>/srv/repo\<close> and a file outside it. As on
  Linux, \<open>os.stat\<close> fails with \<open>ENAMETOOLONG\<close> on a name of more than 255 bytes.\<close>

definition example_fs :: filesystem where
  "example_fs =
     \<lparr>fs_root = Dir
        [(''etc'', Dir [(''passwd'', File 10 (Text ''root:x:0:0''))]),
         (''srv'', Dir [(''repo'', Dir
            [(''auth.py'', File 34 (Text ''import os\<newline>password = \"x\"\<newline>AUTH = 1'')),
             (''.git'', Dir [(''x.py'', File 4 (Text ''auth''))]),
             (''sub'', Dir [(''b.py'', File 3 Undecodable),
                          (''c.py'', File 9 (Text ''Auth\<newline>auth''))])])])],
      fs_cwd = [],
      fs_stat_error = (\<lambda>p. if list_ex (\<lambda>name. 255 < length name) (parts p)
                           then Some (OSError ''[Errno 36] File name too long'') else None)\<rparr>"

definition example_repo :: path where
  "example_repo = parse_path ''/srv/repo''"



text \<open>A stand-in for \<open>fnmatch.fnmatch\<close> that knows the wildcard \<open>*\<close> only.\<close>

fun star_match :: "string \<Rightarrow> string \<Rightarrow> bool" where
  "star_match [] name = (name = [])"
| "star_match (p # ps) [] = (p = CHR ''*'' \<and> star_match ps [])"
| "star_match (p # ps) (c # cs) =
     (if p = CHR ''*'' then star_match ps (c # cs) \<or> star_match (p # ps) cs
      else p = c \<and> star_match ps cs)"

definition example_fnmatch :: "string \<Rightarrow> string \<Rightarrow> bool" where
  "example_fnmatch name pattern = star_match pattern name"

text \<open>A query about authentication.\<close>

definition example_state :: agent_state where
  "example_state =
     \<lparr>st_messages = [], st_repo_path = ''/srv/repo'', st_github_url = [],
      st_current_step = ''start'',
      st_analysis_results =
        \<lparr>ar_search_plan = None, ar_search_results = None, ar_code_analysis = None\<rparr>,
      st_user_query = ''How does Authentication work?''\<rparr>"

text \<open>
  A module of four functions, each with a docstring, and what the library gives on it:
  the tree, complexity 1 for each function, a maintainability index of 100. The
  stand-in parser raises \<open>ValueError\<close> on a null byte, a \<open>SyntaxError\<close> at line 1 on
  \<open>def f(:\<close>, and reads every other text as an empty module.
\<close>

definition documented_source :: string where
  "documented_source =
     ''def a():\<newline>    \"\"\"A.\"\"\"\<newline>def b():\<newline>    \"\"\"B.\"\"\"\<newline>'' @
     ''def c():\<newline>    \"\"\"C.\"\"\"\<newline>def d():\<newline>    \"\"\"D.\"\"\"\<newline>''"

definition documented_tree :: ast_node where
  "documented_tree =
     OtherNode
       [FunctionDef ''a'' 1 0 0 (Some ''A.'') [OtherNode [], OtherNode [OtherNode []]],
        FunctionDef ''b'' 3 0 0 (Some ''B.'') [OtherNode [], OtherNode [OtherNode []]],
        FunctionDef ''c'' 5 0 0 (Some ''C.'') [OtherNode [], OtherNode [OtherNode []]],
        FunctionDef ''d'' 7 0 0 (Some ''D.'') [OtherNode [], OtherNode [OtherNode []]]]"

definition example_lib :: pylib where
  "example_lib =
     \<lparr>ast_parse = (\<lambda>content.
        if CHR 0x00 \<in> set content
        then RaisedException ''source code string cannot contain null bytes''
        else if content = ''def f(:''
        then RaisedSyntaxError ''invalid syntax (<unknown>, line 1)'' (Some 1)
        else if content = documented_source then Parsed documented_tree
        else Parsed (OtherNode [])),
      cc_visit = (\<lambda>content.
        if content = documented_source
        then Some [\<lparr>cx_name = ''a'', cx_complexity = 1, cx_line = 1\<rparr>,
                   \<lparr>cx_name = ''b'', cx_complexity = 1, cx_line = 3\<rparr>,
                   \<lparr>cx_name = ''c'', cx_complexity = 1, cx_line = 5\<rparr>,
                   \<lparr>cx_name = ''d'', cx_complexity = 1, cx_line = 7\<rparr>]
        else Some []),
      mi_visit = (\<lambda>content. Some 100)\<rparr>"

text \<open>The same library, except that \<open>mi_visit\<close> may also raise.\<close>

definition flaky_runs :: pyruns where
  "flaky_runs = (runs_of example_lib)\<lparr>mi_run := (\<lambda>content mi. mi = Some 100 \<or> mi = None)\<rparr>"

definition example_env :: environment where
  "example_env =
     \<lparr>env_fs = example_fs,
      env_fnmatch = example_fnmatch,
      env_http_get = (\<lambda>url. StatusOther 403),
      env_get_repo_info = (\<lambda>url. []),
      env_lib = example_lib\<rparr>"

definition example_agent :: agent where
  "example_agent = new_agent (Some ''/srv/repo'') None"

section \<open>Properties of the Issue Detector\<close>

lemma splitlines_from_append:
  "A \<noteq> [] \<Longrightarrow> is_linebreak (last A) \<Longrightarrow> \<not> (last A = CR \<and> B \<noteq> [] \<and> hd B = LF) \<Longrightarrow>
   splitlines_from cur (A @ B) = splitlines_from cur A @ splitlines_from [] B"
proof (induction cur A rule: splitlines_from.induct)
  case (1 cur)
  then show ?case by simp
next
  case (2 cur c)
  then show ?case by (cases B) auto
next
  case (3 cur c d ds)
  show ?case
  proof (cases "c = CR \<and> d = LF")
    case True
    show ?thesis
    proof (cases "ds = []")
      case True
      with \<open>c = CR \<and> d = LF\<close> show ?thesis by simp
    next
      case False
      with "3.prems" have "splitlines_from [] (ds @ B) = splitlines_from [] ds @ splitlines_from [] B"
        using "3.IH"(1) [OF True] by simp
      with True show ?thesis by simp
    qed
  next
    case False
    note nf = False
    show ?thesis
    proof (cases "is_linebreak c")
      case True
      have "splitlines_from [] ((d # ds) @ B) = splitlines_from [] (d # ds) @ splitlines_from [] B"
        using "3.IH"(2) [OF nf True] "3.prems" by simp
      with nf True show ?thesis by auto
    next
      case False
      have "splitlines_from (cur @ [c]) ((d # ds) @ B) = splitlines_from (cur @ [c]) (d # ds) @ splitlines_from [] B"
        using "3.IH"(3) [OF nf False] "3.prems" by simp
      with nf False show ?thesis by auto
    qed
  qed
qed

lemma splitlines_append:
  assumes "joins_at_line_boundary A B"
  shows "splitlines (A @ B) = splitlines A @ splitlines B"
proof (cases "A = [] \<or> B = []")
  case True
  then show ?thesis by (auto simp: splitlines_def)
next
  case False
  with assms show ?thesis
    unfolding splitlines_def joins_at_line_boundary_def
    by (intro splitlines_from_append) auto
qed

lemma check_line_offset: "check_line (n + k) l = map (offset_issue k) (check_line n l)"
  by (simp add: check_line_def offset_issue_def)

lemma detect_lines_offset: "detect_lines (n + k) ls = map (offset_issue k) (detect_lines n ls)"
proof (induction ls arbitrary: n)
  case Nil
  show ?case by simp
next
  case (Cons l ls)
  have "detect_lines (Suc n + k) ls = map (offset_issue k) (detect_lines (Suc n) ls)"
    by (rule Cons.IH)
  then show ?case by (simp add: check_line_offset)
qed

lemma detect_lines_append:
  "detect_lines n (xs @ ys) = detect_lines n xs @ detect_lines (n + length xs) ys"
  by (induction xs arbitrary: n) auto

text \<open>
  Claim C5, as amended. When two file contents \<open>A\<close> and \<open>B\<close> join at a line boundary,
  the issues of \<open>A + B\<close> are the issues of \<open>A\<close> followed by the issues of \<open>B\<close>, each
  with its line number raised by the number of lines of \<open>A\<close>; nothing else appears and
  nothing is lost.
\<close>

theorem detect_issues_concat:
  assumes "joins_at_line_boundary A B"
  shows "detect_python_issues (A @ B) =
         detect_python_issues A @
         map (offset_issue (length (splitlines A))) (detect_python_issues B)"
  using splitlines_append [OF assms]
  by (simp add: detect_python_issues_def detect_lines_append detect_lines_offset [symmetric])

text \<open>
  Claim C5 as stated fails when the first content does not end a line: neither
  \<open>ev\<close> nor \<open>al(x)\<close> has an issue, their concatenation has one.
\<close>

theorem detect_issues_concat_counterexample:
  "detect_python_issues ''ev'' = [] \<and>
   detect_python_issues ''al(x)'' = [] \<and>
   detect_python_issues (''ev'' @ ''al(x)'') =
     [\<lparr>i_type = ''security'', i_severity = ''high'', i_line = 1,
       i_message = ''Use of eval() is dangerous'',
       i_suggestion = ''Consider using ast.literal_eval() or safer alternatives''\<rparr>] \<and>
   set (detect_python_issues (''ev'' @ ''al(x)'')) \<noteq>
   set (detect_python_issues ''ev'') \<union>
   set (map (offset_issue (length (splitlines ''ev''))) (detect_python_issues ''al(x)''))"
  by (simp add: detect_python_issues_def splitlines_def check_line_def is_linebreak_def cp_def CR_def LF_def
     password_search_def password_match_at_def lower_def)

theorem detect_issues_concat_witness:
  "joins_at_line_boundary ''x = eval(s)\<newline>'' ''# TODO\<newline>exec(t)'' \<and>
   detect_python_issues (''x = eval(s)\<newline>'' @ ''# TODO\<newline>exec(t)'') =
     detect_python_issues ''x = eval(s)\<newline>'' @
     map (offset_issue (length (splitlines ''x = eval(s)\<newline>'')))
       (detect_python_issues ''# TODO\<newline>exec(t)'')"
proof -
  have h: "joins_at_line_boundary ''x = eval(s)\<newline>'' ''# TODO\<newline>exec(t)''"
    by (simp add: joins_at_line_boundary_def is_linebreak_def cp_def CR_def)
  show ?thesis using h detect_issues_concat [OF h] by simp
qed

lemma password_match_at_intro:
  assumes w: "lower w = ''password''"
    and s1: "\<forall>c\<in>set s1. is_space c" and s2: "\<forall>c\<in>set s2. is_space c"
    and q: "quote_char q"
  shows "password_match_at (w @ s1 @ ''='' @ s2 @ [q] @ v)"
proof -
  have "length (lower w) = length ''password''"
    using w by simp
  then have len: "length w = 8"
    by (simp add: lower_def)
  have eq_ns: "\<not> is_space CHR ''=''"
    by (simp add: is_space_def cp_def)
  have q_ns: "\<not> is_space q"
    using q by (auto simp: quote_char_def is_space_def cp_def)
  have d1: "dropWhile is_space (s1 @ ''='' @ s2 @ [q] @ v) = ''='' @ s2 @ [q] @ v"
    using s1 eq_ns by (simp add: dropWhile_append2)
  have d2: "dropWhile is_space (s2 @ [q] @ v) = q # v"
    using s2 q_ns by (simp add: dropWhile_append2)
  show ?thesis
    using len w q d1 d2 by (simp add: password_match_at_def)
qed

lemma password_search_intro:
  assumes "line = u @ w @ s1 @ ''='' @ s2 @ [q] @ v"
    and "lower w = ''password''"
    and "\<forall>c\<in>set s1. is_space c" and "\<forall>c\<in>set s2. is_space c"
    and "quote_char q"
  shows "password_search line"
proof -
  have "suffix (w @ s1 @ ''='' @ s2 @ [q] @ v) line"
    using assms(1) by (simp add: suffix_def)
  then have "w @ s1 @ ''='' @ s2 @ [q] @ v \<in> set (suffixes line)"
    by (simp add: in_set_suffixes)
  moreover have "password_match_at (w @ s1 @ ''='' @ s2 @ [q] @ v)"
    using assms(2-5) by (rule password_match_at_intro)
  ultimately show ?thesis
    unfolding password_search_def list_ex_iff by blast
qed

lemma password_match_at_elim:
  assumes "password_match_at s"
  shows "\<exists>w s1 s2 q v. s = w @ s1 @ ''='' @ s2 @ [q] @ v \<and> lower w = ''password'' \<and>
           (\<forall>c\<in>set s1. is_space c) \<and> (\<forall>c\<in>set s2. is_space c) \<and> quote_char q"
proof -
  from assms obtain r where w: "lower (take 8 s) = ''password''"
    and d1: "dropWhile is_space (drop 8 s) = CHR ''='' # r"
    and rest: "case dropWhile is_space r of [] \<Rightarrow> False | q # v \<Rightarrow> quote_char q"
    by (auto simp: password_match_at_def split: list.splits)
  from rest obtain q v where d2: "dropWhile is_space r = q # v" and q: "quote_char q"
    by (auto split: list.splits)
  let ?s1 = "takeWhile is_space (drop 8 s)" and ?s2 = "takeWhile is_space r"
  have "drop 8 s = ?s1 @ CHR ''='' # r"
    using d1 takeWhile_dropWhile_id [of is_space "drop 8 s"] by simp
  moreover have "r = ?s2 @ q # v"
    using d2 takeWhile_dropWhile_id [of is_space r] by simp
  ultimately have "s = take 8 s @ ?s1 @ ''='' @ ?s2 @ [q] @ v"
    using append_take_drop_id [of 8 s] by simp
  moreover have "\<forall>c\<in>set ?s1. is_space c" "\<forall>c\<in>set ?s2. is_space c"
    by (auto dest: set_takeWhileD)
  ultimately show ?thesis
    using w q by blast
qed

text \<open>The matcher accepts exactly the lines with a part of the shape of the pattern.\<close>

lemma password_search_iff:
  "password_search line \<longleftrightarrow>
   (\<exists>u w s1 s2 q v. line = u @ w @ s1 @ ''='' @ s2 @ [q] @ v \<and> lower w = ''password'' \<and>
      (\<forall>c\<in>set s1. is_space c) \<and> (\<forall>c\<in>set s2. is_space c) \<and> quote_char q)"
proof
  assume "password_search line"
  then obtain s where "suffix s line" "password_match_at s"
    unfolding password_search_def list_ex_iff by (auto simp: in_set_suffixes)
  then obtain u where "line = u @ s"
    by (auto simp: suffix_def)
  with password_match_at_elim [OF \<open>password_match_at s\<close>]
  show "\<exists>u w s1 s2 q v. line = u @ w @ s1 @ ''='' @ s2 @ [q] @ v \<and> lower w = ''password'' \<and>
      (\<forall>c\<in>set s1. is_space c) \<and> (\<forall>c\<in>set s2. is_space c) \<and> quote_char q"
    by blast
next
  assume "\<exists>u w s1 s2 q v. line = u @ w @ s1 @ ''='' @ s2 @ [q] @ v \<and> lower w = ''password'' \<and>
      (\<forall>c\<in>set s1. is_space c) \<and> (\<forall>c\<in>set s2. is_space c) \<and> quote_char q"
  then obtain u w s1 s2 q v where l: "line = u @ w @ s1 @ ''='' @ s2 @ [q] @ v"
    and h: "lower w = ''password''" "\<forall>c\<in>set s1. is_space c" "\<forall>c\<in>set s2. is_space c" "quote_char q"
    by blast
  have "suffix (w @ s1 @ ''='' @ s2 @ [q] @ v) line"
    using l by (simp add: suffix_def)
  then have "w @ s1 @ ''='' @ s2 @ [q] @ v \<in> set (suffixes line)"
    by (simp add: in_set_suffixes)
  moreover have "password_match_at (w @ s1 @ ''='' @ s2 @ [q] @ v)"
    using h by (rule password_match_at_intro)
  ultimately show "password_search line"
    unfolding password_search_def list_ex_iff by blast
qed

lemma detect_lines_member:
  "j < length ls \<Longrightarrow> x \<in> set (check_line (n + j) (ls ! j)) \<Longrightarrow> x \<in> set (detect_lines n ls)"
proof (induction ls arbitrary: n j)
  case Nil
  then show ?case by simp
next
  case (Cons l ls)
  show ?case
  proof (cases j)
    case 0
    with Cons.prems show ?thesis by simp
  next
    case (Suc k)
    with Cons.prems have "k < length ls" "x \<in> set (check_line (Suc n + k) (ls ! k))" by simp_all
    then have "x \<in> set (detect_lines (Suc n) ls)" by (rule Cons.IH)
    then show ?thesis by simp
  qed
qed

text \<open>
  Claim C6. If line \<open>i\<close> (counted from 1) of a content holds the word \<open>password\<close> in
  any mix of cases, then optional white space, \<open>=\<close>, optional white space and a single
  or double quote, the detected issues contain the issue of type security and severity
  critical at line \<open>i\<close> with the message \<open>Hardcoded password detected\<close>.
\<close>

theorem hardcoded_password_reported:
  assumes i: "1 \<le> i" "i \<le> length (splitlines content)"
    and line: "splitlines content ! (i - 1) = u @ w @ s1 @ ''='' @ s2 @ [q] @ v"
    and w: "lower w = ''password''"
    and sp: "\<forall>c\<in>set s1. is_space c" "\<forall>c\<in>set s2. is_space c"
    and q: "q = CHR 0x22 \<or> q = CHR 0x27"
  shows "\<lparr>i_type = ''security'', i_severity = ''critical'', i_line = i,
      i_message = ''Hardcoded password detected'',
      i_suggestion = ''Use environment variables or secure secret management''\<rparr> \<in> set (detect_python_issues content)"
proof -
  let ?ls = "splitlines content"
  have j: "i - 1 < length ?ls" and n: "1 + (i - 1) = i"
    using i by simp_all
  have "password_search (?ls ! (i - 1))"
    using q by (intro password_search_intro [OF line w sp]) (simp add: quote_char_def)
  then have "\<lparr>i_type = ''security'', i_severity = ''critical'', i_line = i,
      i_message = ''Hardcoded password detected'',
      i_suggestion = ''Use environment variables or secure secret management''\<rparr> \<in> set (check_line (1 + (i - 1)) (?ls ! (i - 1)))"
    unfolding n by (simp add: check_line_def)
  with j show ?thesis
    unfolding detect_python_issues_def by (rule detect_lines_member)
qed

lemma login_example_lines: "splitlines ''def login(user):\<newline>    PassWord = \"hunter2\"\<newline>'' = [''def login(user):'', ''    PassWord = \"hunter2\"'']"
  by (simp add: splitlines_def is_linebreak_def cp_def CR_def LF_def)

theorem hardcoded_password_reported_witness:
  "\<lparr>i_type = ''security'', i_severity = ''critical'', i_line = 2,
      i_message = ''Hardcoded password detected'',
      i_suggestion = ''Use environment variables or secure secret management''\<rparr>
    \<in> set (detect_python_issues ''def login(user):\<newline>    PassWord = \"hunter2\"\<newline>'')"
proof -
  have l: "splitlines ''def login(user):\<newline>    PassWord = \"hunter2\"\<newline>'' ! (2 - 1) = ''    '' @ ''PassWord'' @ '' '' @ ''='' @ '' '' @ [CHR 0x22] @ ''hunter2\"''"
    by (simp add: login_example_lines)
  have w: "lower ''PassWord'' = ''password''"
    by code_simp
  show ?thesis
    by (rule hardcoded_password_reported [where i = 2, OF _ _ l w])
       (simp_all add: login_example_lines is_space_def cp_def)
qed

section \<open>Properties of the File Corpus Accessor\<close>

lemma py_in_iff: "py_in n h \<longleftrightarrow> (\<exists>u v. h = u @ n @ v)"
proof (induction h)
  case Nil
  then show ?case by auto
next
  case (Cons c cs)
  show ?case
  proof
    assume "py_in n (c # cs)"
    then show "\<exists>u v. c # cs = u @ n @ v"
    proof (simp, elim disjE)
      assume "prefix n (c # cs)"
      then obtain v where "c # cs = n @ v" by (auto simp: prefix_def)
      then have "c # cs = [] @ n @ v" by simp
      then show ?thesis by blast
    next
      assume "py_in n cs"
      with Cons obtain u v where "cs = u @ n @ v" by blast
      then have "c # cs = (c # u) @ n @ v" by simp
      then show ?thesis by blast
    qed
  next
    assume "\<exists>u v. c # cs = u @ n @ v"
    then obtain u v where uv: "c # cs = u @ n @ v" by blast
    show "py_in n (c # cs)"
    proof (cases u)
      case Nil
      with uv show ?thesis by (cases n) (auto simp: prefix_def)
    next
      case (Cons a u')
      with uv have "cs = u' @ n @ v" by simp
      with Cons.IH show ?thesis by auto
    qed
  qed
qed

lemma py_in_sublist: "py_in n h \<longleftrightarrow> sublist n h"
  by (simp add: py_in_iff sublist_def)

lemma length_search_lines:
  "length (search_lines query file lines n ls) =
   length (filter (\<lambda>line. sublist (lower query) (lower line)) ls)"
  by (induction ls arbitrary: n) (simp_all add: py_in_sublist)

text \<open>The containment test of \<open>read_file\<close> accepts every relative path argument.\<close>

lemma relative_join_is_relative:
  "root (parse_path file_path) = [] \<Longrightarrow> is_relative_to (joinpath repo_path file_path) repo_path"
  by (simp add: joinpath_def is_relative_to_def Let_def)

lemma relative_argument_never_denied:
  "root (parse_path file_path) = [] \<Longrightarrow> read_file fs repo_path file_path \<noteq> Inr (Error AccessDenied)"
  by (simp add: read_file_def Let_def relative_join_is_relative
        split: sum.split read_outcome.split)

text \<open>An exception of the existence test leaves \<open>read_file\<close>.\<close>

lemma read_file_exists_raises:
  "path_exists fs (joinpath repo_path file_path) = Inl e \<Longrightarrow> read_file fs repo_path file_path = Inl e"
  by (simp add: read_file_def Let_def)




text \<open>
  Claim C1 fails on the code. The path \<open>../../etc/passwd\<close> leaves the repository
  \<open>/srv/repo\<close>, the file it reaches exists, the comparison of written components
  accepts it, and \<open>read_file\<close> returns the content of \<open>/etc/passwd\<close>.
\<close>

theorem read_file_escape_returns_content:
  "read_file example_fs example_repo ''../../etc/passwd'' =
     Inr (FileContent ''../../etc/passwd'' ''root:x:0:0'' 1 10)"
  by code_simp

lemma map_fst_listed_data: "map fst (listed_data fnmatch pattern rel n) = walk_files fnmatch pattern rel n"
proof (induction fnmatch pattern rel n rule: walk_files.induct)
  case (1 fnmatch pattern rel sz d)
  show ?case by (simp add: listed_data.simps walk_files.simps)
next
  case (2 fnmatch pattern rel es)
  have a: "map (\<lambda>x. map fst (case x of (name, n) \<Rightarrow> case n of
                     File sz d \<Rightarrow> map (\<lambda>desc. (desc, d)) (file_entry fnmatch pattern rel name sz)
                   | Dir sub \<Rightarrow> [])) es =
           map (\<lambda>(name, n). case n of
                     File sz d \<Rightarrow> file_entry fnmatch pattern rel name sz
                   | Dir sub \<Rightarrow> []) es"
    by (rule map_cong) (auto split: fsnode.split simp: comp_def)
  have b: "map (\<lambda>x. map fst (case x of (name, n) \<Rightarrow> case n of
                     File sz d \<Rightarrow> []
                   | Dir sub \<Rightarrow>
                       if keep_dir name then listed_data fnmatch pattern (rel @ [name]) n else [])) es =
           map (\<lambda>(name, n). case n of
                     File sz d \<Rightarrow> []
                   | Dir sub \<Rightarrow>
                       if keep_dir name then walk_files fnmatch pattern (rel @ [name]) n else []) es"
    by (rule map_cong) (auto split: fsnode.split simp: "2.IH")
  show ?case
    by (simp add: listed_data.simps walk_files.simps map_concat comp_def a b)
qed


lemma map_fst_files_with_data:
  "map fst (files_with_data fs repo_path fnmatch pattern) = list_files fs repo_path fnmatch pattern"
  by (simp add: files_with_data_def list_files_def map_fst_listed_data
        split: option.split fsnode.split)

lemma split_sep_from_no_sep:
  "CHR ''/'' \<notin> set n \<Longrightarrow> split_sep_from cur (n @ rest) = split_sep_from (cur @ n) rest"
  by (induction n arbitrary: cur) auto

lemma split_join_sep:
  "names \<noteq> [] \<Longrightarrow> \<forall>n\<in>set names. CHR ''/'' \<notin> set n \<Longrightarrow>
   split_sep_from cur (join_sep names) = (cur @ hd names) # tl names"
proof (induction names arbitrary: cur rule: join_sep.induct)
  case 1
  then show ?case by simp
next
  case (2 p)
  then have "split_sep_from cur (p @ []) = split_sep_from (cur @ p) []"
    by (intro split_sep_from_no_sep) simp
  then show ?case by simp
next
  case (3 p q ps)
  from "3.prems" have "split_sep_from cur (p @ (CHR ''/'' # join_sep (q # ps))) =
      split_sep_from (cur @ p) (CHR ''/'' # join_sep (q # ps))"
    by (intro split_sep_from_no_sep) simp
  moreover have "split_sep_from [] (join_sep (q # ps)) = ([] @ hd (q # ps)) # tl (q # ps)"
    using "3.prems" by (intro "3.IH") simp_all
  ultimately show ?case by simp
qed

lemma parse_root_join_sep:
  assumes "names \<noteq> []" "\<forall>n\<in>set names. valid_name n"
  shows "parse_root (join_sep names) = []"
proof -
  from assms obtain x xs where names: "names = x # xs"
    by (cases names) auto
  with assms(2) obtain c cs where x: "x = c # cs" "c \<noteq> CHR ''/''"
    by (cases x) (auto simp: valid_name_def)
  have "\<exists>rest. join_sep names = c # rest"
    unfolding names x by (cases xs) simp_all
  then show ?thesis
    using x(2) by (auto simp: parse_root_def)
qed

lemma parse_path_str:
  assumes "names \<noteq> []" "\<forall>n\<in>set names. valid_name n"
  shows "parse_path (path_str (Path [] names)) = Path [] names"
proof -
  have ns: "\<forall>n\<in>set names. CHR ''/'' \<notin> set n"
    using assms(2) by (simp add: valid_name_def)
  have "split_sep_from [] (join_sep names) = names"
    using split_join_sep [OF assms(1) ns, of "[]"] assms(1) by simp
  moreover have "filter (\<lambda>p. p \<noteq> [] \<and> p \<noteq> ''.'') names = names"
    using assms(2) by (intro filter_True) (simp add: valid_name_def)
  ultimately show ?thesis
    using assms(1) parse_root_join_sep [OF assms]
    by (simp add: parse_path_def path_str_def)
qed

lemma walk_path_ancestors:
  "''..'' \<notin> set names \<Longrightarrow> walk_path n anc names = walk_path n anc' names"
proof (induction names arbitrary: n anc anc')
  case Nil
  show ?case by simp
next
  case (Cons c cs)
  then have c: "c \<noteq> ''..''" and cs: "''..'' \<notin> set cs"
    by auto
  show ?case
  proof (cases n)
    case (File sz d)
    then show ?thesis by simp
  next
    case (Dir es)
    show ?thesis
    proof (cases "map_of es c")
      case None
      with Dir c show ?thesis by simp
    next
      case (Some m)
      have "walk_path m (Dir es # anc) cs = walk_path m (Dir es # anc') cs"
        using cs by (rule Cons.IH)
      with Dir c Some show ?thesis by simp
    qed
  qed
qed

lemma walk_path_append:
  "walk_path cur anc xs = Some n \<Longrightarrow> \<exists>anc'. walk_path cur anc (xs @ ys) = walk_path n anc' ys"
proof (induction cur anc xs rule: walk_path.induct)
  case (1 cur anc)
  then show ?case by auto
next
  case (2 sz d anc c cs)
  then show ?case by simp
next
  case (3 es anc c cs)
  show ?case
  proof (cases "c = ''..''")
    case True
    show ?thesis
    proof (cases anc)
      case Nil
      with True "3.prems" have "walk_path (Dir es) [] cs = Some n" by simp
      from "3.IH"(1) [OF True Nil this] Nil True show ?thesis by simp
    next
      case (Cons p ps)
      with True "3.prems" have "walk_path p ps cs = Some n" by simp
      from "3.IH"(2) [OF True Cons this] Cons True show ?thesis by simp
    qed
  next
    case False
    with "3.prems" obtain m where m: "map_of es c = Some m" and w: "walk_path m (Dir es # anc) cs = Some n"
      by (auto split: option.splits)
    from "3.IH"(3) [OF False m w] False m show ?thesis by simp
  qed
qed

lemma walk_path_wf:
  "wf_node cur \<Longrightarrow> list_all wf_node anc \<Longrightarrow> walk_path cur anc xs = Some n \<Longrightarrow> wf_node n"
proof (induction cur anc xs rule: walk_path.induct)
  case (1 cur anc)
  then show ?case by simp
next
  case (2 sz d anc c cs)
  then show ?case by simp
next
  case (3 es anc c cs)
  show ?case
  proof (cases "c = ''..''")
    case True
    show ?thesis
    proof (cases anc)
      case Nil
      with True "3.prems" show ?thesis
        using "3.IH"(1) [OF True Nil] by simp
    next
      case (Cons p ps)
      with True "3.prems" show ?thesis
        using "3.IH"(2) [OF True Cons] by simp
    qed
  next
    case False
    with "3.prems" obtain m where m: "map_of es c = Some m" and w: "walk_path m (Dir es # anc) cs = Some n"
      by (auto split: option.splits)
    from m have "(c, m) \<in> set es"
      by (rule map_of_SomeD)
    with "3.prems"(1) have "wf_node m"
      by (auto simp: list_all_iff)
    with "3.prems" show ?thesis
      using "3.IH"(3) [OF False m _ _ w] by simp
  qed
qed

lemma file_entry_path:
  "desc \<in> set (file_entry fnmatch pattern rel name sz) \<Longrightarrow>
   d_path desc = path_str (Path [] (rel @ [name]))"
  by (auto simp: file_entry_def split: if_splits)

lemma listed_data_reachable:
  "wf_node n \<Longrightarrow> (desc, d) \<in> set (listed_data fnmatch pattern rel n) \<Longrightarrow>
   \<exists>names sz. d_path desc = path_str (Path [] (rel @ names)) \<and> names \<noteq> [] \<and>
      (\<forall>x\<in>set names. valid_name x) \<and> (\<forall>anc. walk_path n anc names = Some (File sz d))"
proof (induction fnmatch pattern rel n rule: listed_data.induct)
  case (1 fnmatch pattern rel sz d')
  then show ?case by (simp add: listed_data.simps)
next
  case (2 fnmatch pattern rel es)
  from "2.prems"(1) have dist: "distinct (map fst es)"
    and wf: "\<And>name m. (name, m) \<in> set es \<Longrightarrow> valid_name name \<and> wf_node m"
    by (auto simp: list_all_iff)
  from "2.prems"(2) [unfolded listed_data.simps(2)] consider
    (in_dir) name sz where "(name, File sz d) \<in> set es"
      "desc \<in> set (file_entry fnmatch pattern rel name sz)"
  | (below) name sub where "(name, Dir sub) \<in> set es" "keep_dir name"
      "(desc, d) \<in> set (listed_data fnmatch pattern (rel @ [name]) (Dir sub))"
    by (auto split: fsnode.splits if_splits)
  then show ?case
  proof cases
    case in_dir
    have v: "valid_name name"
      using wf in_dir(1) by blast
    then have "name \<noteq> ''..''"
      by (simp add: valid_name_def)
    moreover have "map_of es name = Some (File sz d)"
      using dist in_dir(1) by (rule map_of_is_SomeI)
    ultimately have "\<forall>anc. walk_path (Dir es) anc [name] = Some (File sz d)"
      by simp
    with v file_entry_path [OF in_dir(2)] show ?thesis
      by (intro exI [where x = "[name]"] exI [where x = sz]) simp
  next
    case below
    have v: "valid_name name" and wfs: "wf_node (Dir sub)"
      using wf below(1) by blast+
    from "2.IH" [OF below(1) refl refl below(2) wfs below(3)]
    obtain names sz where p: "d_path desc = path_str (Path [] ((rel @ [name]) @ names))"
      and ne: "names \<noteq> []" and vs: "\<forall>x\<in>set names. valid_name x"
      and w: "\<forall>anc. walk_path (Dir sub) anc names = Some (File sz d)"
      by blast
    have "name \<noteq> ''..''"
      using v by (simp add: valid_name_def)
    moreover have "map_of es name = Some (Dir sub)"
      using dist below(1) by (rule map_of_is_SomeI)
    ultimately have "\<forall>anc. walk_path (Dir es) anc (name # names) = Some (File sz d)"
      using w by simp
    with p v vs show ?thesis
      by (intro exI [where x = "name # names"] exI [where x = sz]) simp
  qed
qed


text \<open>\<open>read_file\<close> on the path of a listed file reads that file.\<close>

lemma read_file_listed:
  assumes r: "resolve fs repo_path = Some n" and wf: "wf_node n"
    and l: "(desc, d) \<in> set (listed_data fnmatch pattern [] n)"
  shows "read_file fs repo_path (d_path desc) = Inr (read_back (d_path desc) d)"
proof -
  from listed_data_reachable [OF wf l] obtain names sz where
    p: "d_path desc = path_str (Path [] names)" and ne: "names \<noteq> []"
    and vs: "\<forall>x\<in>set names. valid_name x"
    and w: "\<forall>anc. walk_path n anc names = Some (File sz d)"
    by auto
  have parse: "parse_path (d_path desc) = Path [] names"
    unfolding p using ne vs by (rule parse_path_str)
  then have j: "joinpath repo_path (d_path desc) = Path (root repo_path) (parts repo_path @ names)"
    by (simp add: joinpath_def)
  let ?pre = "if root repo_path = [] then fs_cwd fs @ parts repo_path else parts repo_path"
  have "walk_path (fs_root fs) [] ?pre = Some n"
    using r by (simp add: resolve_def)
  from walk_path_append [OF this, of names] w
  have "walk_path (fs_root fs) [] (?pre @ names) = Some (File sz d)"
    by auto
  then have res: "resolve fs (joinpath repo_path (d_path desc)) = Some (File sz d)"
    unfolding j by (cases "root repo_path = []") (simp_all add: resolve_def)
  have rel: "is_relative_to (joinpath repo_path (d_path desc)) repo_path"
    unfolding j by (simp add: is_relative_to_def)
  show ?thesis
    using res rel by (cases d) (simp_all add: read_file_def Let_def path_exists_def open_read_def)
qed

lemma search_files_listed:
  assumes "\<And>desc d. (desc, d) \<in> set L \<Longrightarrow>
      read_file fs repo_path (d_path desc) = Inr (read_back (d_path desc) d)"
  shows "\<exists>matches. search_files fs repo_path query (map fst L) = Inr matches \<and>
         length matches =
           (\<Sum>(desc, d) \<leftarrow> L.
              case d of
                Text content \<Rightarrow>
                  length (filter (\<lambda>line. sublist (lower query) (lower line)) (splitlines content))
              | _ \<Rightarrow> 0)"
  using assms
proof (induction L)
  case Nil
  show ?case by simp
next
  case (Cons x L)
  obtain desc d where x: "x = (desc, d)"
    by (cases x)
  have rd: "read_file fs repo_path (d_path desc) = Inr (read_back (d_path desc) d)"
    using Cons.prems x by simp
  have here: "length (case read_back (d_path desc) d of
          FileContent p content n sz \<Rightarrow>
            search_lines query (d_path desc) (splitlines content) 1 (splitlines content)
        | Error e \<Rightarrow> []) =
      (case d of
         Text content \<Rightarrow>
           length (filter (\<lambda>line. sublist (lower query) (lower line)) (splitlines content))
       | _ \<Rightarrow> 0)"
    by (cases d) (simp_all add: length_search_lines)
  have "\<exists>matches. search_files fs repo_path query (map fst L) = Inr matches \<and>
         length matches =
           (\<Sum>(desc, d) \<leftarrow> L.
              case d of
                Text content \<Rightarrow>
                  length (filter (\<lambda>line. sublist (lower query) (lower line)) (splitlines content))
              | _ \<Rightarrow> 0)"
  proof (rule Cons.IH)
    fix desc d
    assume "(desc, d) \<in> set L"
    then have "(desc, d) \<in> set (x # L)" by simp
    then show "read_file fs repo_path (d_path desc) = Inr (read_back (d_path desc) d)"
      by (rule Cons.prems)
  qed
  then obtain later where
    ih: "search_files fs repo_path query (map fst L) = Inr later" and
    n: "length later =
           (\<Sum>(desc, d) \<leftarrow> L.
              case d of
                Text content \<Rightarrow>
                  length (filter (\<lambda>line. sublist (lower query) (lower line)) (splitlines content))
              | _ \<Rightarrow> 0)"
    by blast
  let ?here = "case read_back (d_path desc) d of
          FileContent p content n sz \<Rightarrow>
            search_lines query (d_path desc) (splitlines content) 1 (splitlines content)
        | Error e \<Rightarrow> []"
  have "search_files fs repo_path query (map fst (x # L)) = Inr (?here @ later)"
    unfolding x by (simp add: rd ih)
  moreover have "length (?here @ later) =
           (\<Sum>(desc, d) \<leftarrow> x # L.
              case d of
                Text content \<Rightarrow>
                  length (filter (\<lambda>line. sublist (lower query) (lower line)) (splitlines content))
              | _ \<Rightarrow> 0)"
    unfolding x by (simp add: here n)
  ultimately show ?case
    by blast
qed

lemma files_with_data_cases:
  assumes m: "(desc, d) \<in> set (files_with_data fs repo_path fnmatch file_pattern)"
  shows "\<exists>es. resolve fs repo_path = Some (Dir es) \<and>
        (desc, d) \<in> set (listed_data fnmatch file_pattern [] (Dir es))"
proof (cases "resolve fs repo_path")
  case None
  then have "files_with_data fs repo_path fnmatch file_pattern = []"
    by (simp add: files_with_data_def)
  with m have "(desc, d) \<in> set []"
    by (simp only:)
  then show ?thesis
    by simp
next
  case (Some nd)
  show ?thesis
  proof (cases nd)
    case (File sz dd)
    with Some have "files_with_data fs repo_path fnmatch file_pattern = []"
      by (simp add: files_with_data_def)
    with m have "(desc, d) \<in> set []"
      by (simp only:)
    then show ?thesis
      by simp
  next
    case (Dir es)
    with Some have r: "resolve fs repo_path = Some (Dir es)"
      by simp
    then have "files_with_data fs repo_path fnmatch file_pattern =
        listed_data fnmatch file_pattern [] (Dir es)"
      by (simp add: files_with_data_def)
    with m have "(desc, d) \<in> set (listed_data fnmatch file_pattern [] (Dir es))"
      by (simp only:)
    with r show ?thesis
      by blast
  qed
qed

text \<open>On a well-formed file system \<open>read_file\<close> on the path of every listed file reads
  that file, so \<open>search_in_files\<close> returns, with one match for each line it tests
  positive.\<close>

lemma search_in_files_listed:
  assumes "wf_node (fs_root fs)"
  shows "\<exists>matches. search_in_files fs repo_path fnmatch query file_pattern = Inr matches \<and>
         length matches =
           (\<Sum>(file_info, d) \<leftarrow> files_with_data fs repo_path fnmatch file_pattern.
              case d of
                Text content \<Rightarrow>
                  length (filter (\<lambda>line. sublist (lower query) (lower line)) (splitlines content))
              | _ \<Rightarrow> 0)"
proof -
  have "\<And>desc d. (desc, d) \<in> set (files_with_data fs repo_path fnmatch file_pattern) \<Longrightarrow>
      read_file fs repo_path (d_path desc) = Inr (read_back (d_path desc) d)"
  proof -
    fix desc d
    assume "(desc, d) \<in> set (files_with_data fs repo_path fnmatch file_pattern)"
    from files_with_data_cases [OF this]
    obtain es where r: "resolve fs repo_path = Some (Dir es)"
      and l: "(desc, d) \<in> set (listed_data fnmatch file_pattern [] (Dir es))"
      by blast
    have w: "walk_path (fs_root fs) []
        (if root repo_path = [] then fs_cwd fs @ parts repo_path else parts repo_path) = Some (Dir es)"
      using r by (simp add: resolve_def)
    have "wf_node (Dir es)"
      by (rule walk_path_wf [OF assms _ w]) simp
    with r show "read_file fs repo_path (d_path desc) = Inr (read_back (d_path desc) d)"
      using l by (rule read_file_listed)
  qed
  then have "\<exists>matches. search_files fs repo_path query
        (map fst (files_with_data fs repo_path fnmatch file_pattern)) = Inr matches \<and>
      length matches =
        (\<Sum>(file_info, d) \<leftarrow> files_with_data fs repo_path fnmatch file_pattern.
           case d of
             Text content \<Rightarrow>
               length (filter (\<lambda>line. sublist (lower query) (lower line)) (splitlines content))
           | _ \<Rightarrow> 0)"
    by (rule search_files_listed)
  then show ?thesis
    by (simp only: search_in_files_def map_fst_files_with_data)
qed




section \<open>Properties of the Retrieval Pipeline and the Structural Analyzer\<close>

lemma py_in_part: "py_in n (u @ n @ v)"
  unfolding py_in_iff by blast

text \<open>
  Claim C2. When the query has a part whose lower-case form is \<open>auth\<close> or
  \<open>authentication\<close>, the plan \<open>plan_search\<close> stores has the keywords \<open>auth\<close>, \<open>login\<close>,
  \<open>password\<close>, \<open>token\<close> and the patterns \<open>*auth*.py\<close>, \<open>*login*.py\<close>, in this order.
\<close>

theorem plan_search_auth:
  assumes "st_user_query state = u @ w @ v"
    and "lower w = ''auth'' \<or> lower w = ''authentication''"
  shows "\<exists>plan. ar_search_plan (st_analysis_results (plan_search state)) = Some plan \<and>
           sp_keywords plan = [''auth'', ''login'', ''password'', ''token''] \<and>
           sp_patterns plan = [''*auth*.py'', ''*login*.py'']"
proof -
  have low: "lower (st_user_query state) = lower u @ lower w @ lower v"
    using assms(1) by (simp add: lower_def)
  have "py_in ''authentication'' (lower (st_user_query state)) \<or>
        py_in ''auth'' (lower (st_user_query state))"
    using assms(2)
  proof
    assume "lower w = ''auth''"
    then have "py_in ''auth'' (lower (st_user_query state))"
      unfolding low by (metis py_in_part)
    then show ?thesis ..
  next
    assume "lower w = ''authentication''"
    then have "py_in ''authentication'' (lower (st_user_query state))"
      unfolding low by (metis py_in_part)
    then show ?thesis ..
  qed
  then have "make_search_plan (st_user_query state) =
      \<lparr>sp_patterns = [''*auth*.py'', ''*login*.py''],
       sp_keywords = [''auth'', ''login'', ''password'', ''token''],
       sp_file_types = []\<rparr>"
    unfolding make_search_plan_def by (rule if_P)
  then show ?thesis
    by (simp add: plan_search_def Let_def)
qed

theorem plan_search_auth_witness:
  "\<exists>plan. ar_search_plan (st_analysis_results (plan_search example_state)) = Some plan \<and>
           sp_keywords plan = [''auth'', ''login'', ''password'', ''token''] \<and>
           sp_patterns plan = [''*auth*.py'', ''*login*.py'']"
proof -
  have q: "st_user_query example_state = ''How does '' @ ''Auth'' @ ''entication work?''"
    by (simp add: example_state_def)
  have w: "lower ''Auth'' = ''auth'' \<or> lower ''Auth'' = ''authentication''"
    by code_simp
  show ?thesis
    by (rule plan_search_auth [OF q w])
qed

lemma length_search_code: "length (search_code http q url) \<le> 10"
  by (simp add: search_code_def split: option.split http_outcome.split prod.split)

lemma extend_files_concat:
  "extend_files env repo ps =
   concat (map (\<lambda>p. take 10 (list_files (env_fs env) repo (env_fnmatch env) p)) ps)"
  by (induction ps) auto

lemma extend_matches_concat:
  "extend_matches env repo ks = Inr found \<Longrightarrow>
   found =
   concat (map (\<lambda>k. case search_in_files (env_fs env) repo (env_fnmatch env) k ''*.py'' of
                       Inl e \<Rightarrow> []
                     | Inr matches \<Rightarrow> map LocalMatch (take 20 matches)) ks)"
  by (induction ks arbitrary: found) (auto split: sum.splits)

lemma extend_matches_returns:
  assumes "wf_node (fs_root (env_fs env))"
  shows "\<exists>found. extend_matches env repo ks = Inr found"
proof (induction ks)
  case Nil
  show ?case by simp
next
  case (Cons k ks)
  from search_in_files_listed [OF assms, of repo "env_fnmatch env" k "''*.py''"]
  obtain matches where
    "search_in_files (env_fs env) repo (env_fnmatch env) k ''*.py'' = Inr matches"
    by blast
  with Cons.IH show ?case
    by auto
qed

lemma extend_remote_concat:
  "extend_remote_matches env url ks =
   concat (map (\<lambda>k. map RemoteMatch (search_code (env_http_get env) k url)) ks)"
  by (induction ks) auto


lemma length_concat_le:
  "list_all (\<lambda>kept. length kept \<le> m) per \<Longrightarrow> length (concat per) \<le> m * length per"
  by (induction per) auto

lemma kept_per_pattern_caps:
  "length (kept_per_pattern env self plan) \<le> 5"
  "list_all (\<lambda>kept. length kept \<le> 10) (kept_per_pattern env self plan)"
  by (auto simp: kept_per_pattern_def list_all_iff split: option.split)

lemma search_code_le_20: "length (search_code http q url) \<le> 20"
  using length_search_code [of http q url] by simp

lemma kept_per_keyword_caps:
  "length (kept_per_keyword env self plan) \<le> 3"
  "list_all (\<lambda>kept. length kept \<le> 20) (kept_per_keyword env self plan)"
  by (auto simp: kept_per_keyword_def list_all_iff search_code_le_20
        split: option.split sum.split)

lemma search_with_plan_files:
  assumes "search_with_plan env self plan = Inr results"
  shows "sr_files results = concat (kept_per_pattern env self plan)"
proof (cases "ag_fs_mcp self")
  case None
  with assms show ?thesis
    by (auto simp: search_with_plan_def kept_per_pattern_def split: option.splits if_splits)
next
  case (Some repo)
  with assms show ?thesis
    by (auto simp: search_with_plan_def kept_per_pattern_def Let_def extend_files_concat
          split: if_splits sum.splits)
qed

lemma search_with_plan_matches:
  assumes "search_with_plan env self plan = Inr results"
  shows "sr_matches results = concat (kept_per_keyword env self plan)"
proof (cases "ag_fs_mcp self")
  case None
  with assms show ?thesis
    by (auto simp: search_with_plan_def kept_per_keyword_def extend_remote_concat
          split: option.splits if_splits)
next
  case (Some repo)
  with assms obtain found where
    e: "extend_matches env repo (take 3 (sp_keywords plan)) = Inr found" and
    r: "sr_matches results = found"
    by (auto simp: search_with_plan_def Let_def split: if_splits sum.splits)
  from extend_matches_concat [OF e] r Some show ?thesis
    by (simp add: kept_per_keyword_def)
qed

lemma execute_search_results:
  assumes "execute_search env self state = Inr state'"
  shows "\<exists>plan results. ar_search_plan (st_analysis_results state) = Some plan \<and>
           search_with_plan env self plan = Inr results \<and>
           ar_search_results (st_analysis_results state') = Some results"
  using assms unfolding execute_search_def
  by (auto split: option.splits sum.splits)

lemma search_with_plan_returns:
  assumes "wf_node (fs_root (env_fs env))"
    and "\<And>repo_path. ag_fs_mcp self = Some repo_path \<Longrightarrow> \<exists>es. resolve (env_fs env) repo_path = Some (Dir es)"
  shows "\<exists>results. search_with_plan env self plan = Inr results"
proof (cases "ag_fs_mcp self")
  case None
  then show ?thesis
    by (simp add: search_with_plan_def split: option.split)
next
  case (Some repo_path)
  with assms(2) obtain es where "resolve (env_fs env) repo_path = Some (Dir es)"
    by blast
  then have t: "\<exists>t. get_file_structure (env_fs env) repo_path = Inr t"
    by (simp add: get_file_structure_def)
  from extend_matches_returns [OF assms(1)]
  obtain found where "extend_matches env repo_path (take 3 (sp_keywords plan)) = Inr found"
    by blast
  with Some t show ?thesis
    by (auto simp: search_with_plan_def Let_def)
qed

text \<open>\<open>execute_search\<close> returns when the state has a plan, the file system is well
  formed and the root of the local accessor, if there is one, is a directory.\<close>

lemma execute_search_returns:
  assumes "ar_search_plan (st_analysis_results state) = Some plan"
    and "wf_node (fs_root (env_fs env))"
    and "\<And>repo_path. ag_fs_mcp self = Some repo_path \<Longrightarrow> \<exists>es. resolve (env_fs env) repo_path = Some (Dir es)"
  shows "\<exists>state'. execute_search env self state = Inr state'"
proof -
  from search_with_plan_returns [of env self plan] assms(2,3)
  obtain results where "search_with_plan env self plan = Inr results"
    by blast
  with assms(1) show ?thesis
    by (simp add: execute_search_def)
qed

text \<open>
  Claim C3. When \<open>execute_search\<close> returns, the files of its result are the joined
  results of at most 5 patterns, at most 10 for each; the matches are the joined results of
  at most 3 keywords, at most 20 for each; so there are at most 50 files and at most 60
  matches.
\<close>

theorem execute_search_bounded:
  assumes "execute_search env self state = Inr state'"
  shows "\<exists>plan results.
           ar_search_plan (st_analysis_results state) = Some plan \<and>
           ar_search_results (st_analysis_results state') = Some results \<and>
           sr_files results = concat (kept_per_pattern env self plan) \<and>
           length (kept_per_pattern env self plan) \<le> 5 \<and>
           list_all (\<lambda>kept. length kept \<le> 10) (kept_per_pattern env self plan) \<and>
           sr_matches results = concat (kept_per_keyword env self plan) \<and>
           length (kept_per_keyword env self plan) \<le> 3 \<and>
           list_all (\<lambda>kept. length kept \<le> 20) (kept_per_keyword env self plan) \<and>
           length (sr_files results) \<le> 50 \<and>
           length (sr_matches results) \<le> 60"
proof -
  from execute_search_results [OF assms] obtain plan results where
    p: "ar_search_plan (st_analysis_results state) = Some plan" and
    s: "search_with_plan env self plan = Inr results" and
    r: "ar_search_results (st_analysis_results state') = Some results"
    by blast
  have f: "sr_files results = concat (kept_per_pattern env self plan)"
    using s by (rule search_with_plan_files)
  have m: "sr_matches results = concat (kept_per_keyword env self plan)"
    using s by (rule search_with_plan_matches)
  have "length (concat (kept_per_pattern env self plan)) \<le> 10 * length (kept_per_pattern env self plan)"
    by (rule length_concat_le) (rule kept_per_pattern_caps)
  then have f50: "length (sr_files results) \<le> 50"
    using kept_per_pattern_caps(1) [of env self plan] f by simp
  have "length (concat (kept_per_keyword env self plan)) \<le> 20 * length (kept_per_keyword env self plan)"
    by (rule length_concat_le) (rule kept_per_keyword_caps)
  then have m60: "length (sr_matches results) \<le> 60"
    using kept_per_keyword_caps(1) [of env self plan] m by simp
  show ?thesis
    using p r f m f50 m60 kept_per_pattern_caps [of env self plan] kept_per_keyword_caps [of env self plan]
    by blast
qed

theorem execute_search_bounded_witness:
  "\<exists>state' plan results.
     execute_search example_env example_agent (plan_search example_state) = Inr state' \<and>
     ar_search_plan (st_analysis_results (plan_search example_state)) = Some plan \<and>
     ar_search_results (st_analysis_results state') = Some results \<and>
     sr_files results = concat (kept_per_pattern example_env example_agent plan) \<and>
     length (sr_files results) = 1 \<and> length (sr_files results) \<le> 50 \<and>
     length (sr_matches results) = 4 \<and> length (sr_matches results) \<le> 60"
proof -
  have "case execute_search example_env example_agent (plan_search example_state) of
          Inl e \<Rightarrow> False
        | Inr state' \<Rightarrow>
            (case ar_search_results (st_analysis_results state') of
               None \<Rightarrow> False
             | Some results \<Rightarrow> length (sr_files results) = 1 \<and> length (sr_matches results) = 4)"
    by code_simp
  then obtain state' results0 where
    e: "execute_search example_env example_agent (plan_search example_state) = Inr state'" and
    r0: "ar_search_results (st_analysis_results state') = Some results0" and
    n: "length (sr_files results0) = 1" "length (sr_matches results0) = 4"
    by (auto split: sum.splits option.splits)
  from execute_search_bounded [OF e] r0 n e show ?thesis
    by (metis option.inject)
qed

text \<open>
  Claim C7, as amended. When \<open>ast.parse\<close> raises a \<open>SyntaxError\<close>, the result is the error
  with the line number of the exception; when it raises another exception, the result is
  the error with no line number; in both cases the result is not an analysis.
\<close>

theorem analyze_parse_failure:
  "(ast_parse lib content = RaisedSyntaxError msg lineno \<longrightarrow>
      analyze_python_file lib content file_path =
        SyntaxErrorResult file_path (''Syntax error: '' @ msg) lineno) \<and>
   (ast_parse lib content = RaisedException msg \<longrightarrow>
      analyze_python_file lib content file_path = ErrorResult file_path msg) \<and>
   (parse_failed (ast_parse lib content) \<longrightarrow>
      \<not> is_analysis (analyze_python_file lib content file_path))"
  by (cases "ast_parse lib content") (simp_all add: analyze_python_file_def)

text \<open>
  Claim C7 as stated fails when the parse fails with an exception that is not a
  \<open>SyntaxError\<close>: the result carries no line number.
\<close>

theorem analyze_parse_failure_counterexample:
  "parse_failed (ast_parse example_lib [CHR 0x00]) \<and>
   line_number (analyze_python_file example_lib [CHR 0x00] ''a.py'') = None"
  by (simp add: analyze_python_file_def example_lib_def)

theorem analyze_parse_failure_witness:
  "analyze_python_file example_lib ''def f(:'' ''a.py'' =
     SyntaxErrorResult ''a.py'' ''Syntax error: invalid syntax (<unknown>, line 1)'' (Some 1) \<and>
   analyze_python_file example_lib [CHR 0x00] ''a.py'' =
     ErrorResult ''a.py'' ''source code string cannot contain null bytes'' \<and>
   \<not> is_analysis (analyze_python_file example_lib ''def f(:'' ''a.py'')"
proof -
  have s: "ast_parse example_lib ''def f(:'' =
      RaisedSyntaxError ''invalid syntax (<unknown>, line 1)'' (Some 1)"
    by (simp add: example_lib_def)
  have x: "ast_parse example_lib [CHR 0x00] =
      RaisedException ''source code string cannot contain null bytes''"
    by (simp add: example_lib_def)
  have f: "parse_failed (ast_parse example_lib ''def f(:'')"
    by (simp add: s)
  show ?thesis
    using analyze_parse_failure [of example_lib "''def f(:''" "''invalid syntax (<unknown>, line 1)''" "Some 1" "''a.py''"]
      analyze_parse_failure [of example_lib "[CHR 0x00]" "''source code string cannot contain null bytes''" _ "''a.py''"]
      s x f
    by simp
qed

lemma foldl_visit_entries:
  "foldl visit_node a nodes =
   a\<lparr>fa_functions := fa_functions a @ concat (map function_entry_of nodes),
     fa_classes := fa_classes a @ concat (map class_entry_of nodes),
     fa_imports := fa_imports a @ concat (map imports_of nodes)\<rparr>"
proof (induction nodes arbitrary: a)
  case Nil
  show ?case by simp
next
  case (Cons node nodes)
  show ?case
    by (cases node) (simp_all add: Cons.IH)
qed

lemma analyze_answers_parsed:
  "analyze_python_file (answers (Parsed tree) cc mi) content file_path =
   Analysis
     \<lparr>fa_file = file_path, fa_language = ''python'',
      fa_metrics = \<lparr>mt_complexity = cc, mt_maintainability_index = mi\<rparr>,
      fa_functions = concat (map function_entry_of (ast_walk tree)),
      fa_classes = concat (map class_entry_of (ast_walk tree)),
      fa_imports = concat (map imports_of (ast_walk tree)),
      fa_issues = detect_python_issues content\<rparr>"
  by (simp add: analyze_python_file_def answers_def Let_def foldl_visit_entries)

lemma analyze_answers_failed:
  "analyze_python_file (answers (RaisedSyntaxError msg lineno) cc mi) content file_path =
     SyntaxErrorResult file_path (''Syntax error: '' @ msg) lineno"
  "analyze_python_file (answers (RaisedException msg) cc mi) content file_path =
     ErrorResult file_path msg"
  by (simp_all add: analyze_python_file_def answers_def)


lemma analyze_answers_unused:
  "parse_failed outcome \<Longrightarrow>
   analyze_python_file (answers outcome cc mi) content file_path =
   analyze_python_file (answers outcome None None) content file_path"
  by (cases outcome) (simp_all add: analyze_answers_failed)






text \<open>The hypothesis on the library is needed: when \<open>mi_visit\<close> may return or raise on
  the same content, two runs differ.\<close>

lemma analyze_needs_deterministic_library:
  "analyze_run flaky_runs documented_source ''m.py''
     (analyze_python_file (answers (Parsed documented_tree) (cc_visit example_lib documented_source) (Some 100))
        documented_source ''m.py'') \<and>
   analyze_run flaky_runs documented_source ''m.py''
     (analyze_python_file (answers (Parsed documented_tree) (cc_visit example_lib documented_source) None)
        documented_source ''m.py'') \<and>
   analyze_python_file (answers (Parsed documented_tree) (cc_visit example_lib documented_source) (Some 100))
        documented_source ''m.py'' \<noteq>
   analyze_python_file (answers (Parsed documented_tree) (cc_visit example_lib documented_source) None)
        documented_source ''m.py''"
proof (intro conjI)
  have "ast_parse example_lib documented_source = Parsed documented_tree"
    by code_simp
  then have p: "parse_run flaky_runs documented_source (Parsed documented_tree)"
    by (simp add: flaky_runs_def runs_of_def)
  have c: "cc_run flaky_runs documented_source (cc_visit example_lib documented_source)"
    by (simp add: flaky_runs_def runs_of_def)
  have m1: "mi_run flaky_runs documented_source (Some 100)"
    and m2: "mi_run flaky_runs documented_source None"
    by (simp_all add: flaky_runs_def)
  show "analyze_run flaky_runs documented_source ''m.py''
     (analyze_python_file (answers (Parsed documented_tree) (cc_visit example_lib documented_source) (Some 100))
        documented_source ''m.py'')"
    using p c m1 by (rule analyze_run.parsed)
  show "analyze_run flaky_runs documented_source ''m.py''
     (analyze_python_file (answers (Parsed documented_tree) (cc_visit example_lib documented_source) None)
        documented_source ''m.py'')"
    using p c m2 by (rule analyze_run.parsed)
  show "analyze_python_file (answers (Parsed documented_tree) (cc_visit example_lib documented_source) (Some 100))
        documented_source ''m.py'' \<noteq>
   analyze_python_file (answers (Parsed documented_tree) (cc_visit example_lib documented_source) None)
        documented_source ''m.py''"
    by (simp add: analyze_answers_parsed)
qed

lemma visit_node_docstring:
  "\<forall>f\<in>set (fa_functions a). fe_docstring f = None \<Longrightarrow>
   \<forall>f\<in>set (fa_functions (visit_node a node)). fe_docstring f = None"
  by (cases node) auto

lemma foldl_visit_docstring:
  "\<forall>f\<in>set (fa_functions a). fe_docstring f = None \<Longrightarrow>
   \<forall>f\<in>set (fa_functions (foldl visit_node a nodes)). fe_docstring f = None"
proof (induction nodes arbitrary: a)
  case Nil
  then show ?case by simp
next
  case (Cons node nodes)
  from Cons.prems have "\<forall>f\<in>set (fa_functions (visit_node a node)). fe_docstring f = None"
    by (rule visit_node_docstring)
  then show ?case
    using Cons.IH by simp
qed

text \<open>\<open>analyze_python_file\<close> records no docstring, so every function it lists counts as
  undocumented, and the suggestion depends on the number of functions only.\<close>

lemma analyze_records_no_docstring:
  "f \<in> set (get_functions (analyze_python_file lib content file_path)) \<Longrightarrow> fe_docstring f = None"
proof (cases "ast_parse lib content")
  case (Parsed tree)
  let ?a0 = "\<lparr>fa_file = file_path, fa_language = ''python'',
      fa_metrics = \<lparr>mt_complexity = None, mt_maintainability_index = None\<rparr>,
      fa_functions = [], fa_classes = [], fa_imports = [], fa_issues = []\<rparr>"
  have "\<forall>f\<in>set (fa_functions (foldl visit_node ?a0 (ast_walk tree))). fe_docstring f = None"
    by (rule foldl_visit_docstring) simp
  moreover assume "f \<in> set (get_functions (analyze_python_file lib content file_path))"
  ultimately show ?thesis
    using Parsed by (simp add: analyze_python_file_def Let_def)
next
  case (RaisedSyntaxError msg lineno)
  moreover assume "f \<in> set (get_functions (analyze_python_file lib content file_path))"
  ultimately show ?thesis by (simp add: analyze_python_file_def)
next
  case (RaisedException msg)
  moreover assume "f \<in> set (get_functions (analyze_python_file lib content file_path))"
  ultimately show ?thesis by (simp add: analyze_python_file_def)
qed

lemma doc_suggestion_iff:
  "(\<exists>n. LackDocstrings n \<in> set (suggest_improvements analysis)) \<longleftrightarrow>
   3 < length (filter without_docstring (get_functions analysis))"
  by (auto simp: suggest_improvements_def Let_def split: option.splits if_splits)

lemma doc_suggestion_by_count:
  "(\<exists>n. LackDocstrings n \<in> set (suggest_improvements (analyze_python_file lib content file_path))) \<longleftrightarrow>
   3 < length (get_functions (analyze_python_file lib content file_path))"
proof -
  have "filter without_docstring (get_functions (analyze_python_file lib content file_path)) =
        get_functions (analyze_python_file lib content file_path)"
    by (rule filter_True) (simp add: without_docstring_def analyze_records_no_docstring)
  then show ?thesis
    unfolding doc_suggestion_iff by simp
qed

text \<open>
  Claim C8 fails on the code. A module of four functions that all have a docstring is
  analyzed and given to \<open>suggest_improvements\<close>: the suggestion that 4 functions lack
  docstrings is produced.
\<close>

theorem documented_functions_get_doc_suggestion:
  "ast_parse example_lib documented_source = Parsed documented_tree \<and>
   suggest_improvements (analyze_python_file example_lib documented_source ''m.py'') =
     [LackDocstrings 4]"
  by code_simp

end
